theory Spec2Isabelle
  imports Complex_Main "HOL-Library.Product_Lexorder"
begin

section \<open>Python values used by prediction.py\<close>

text \<open>
  A Python float is an IEEE double: an ordinary number, one of the two infinities, or
  NaN. The ordinary numbers are embedded in the reals, where the comparison of two
  doubles is the comparison of the reals they denote. Every comparison with NaN is
  false, as in Python.
\<close>

datatype pyfloat = Finite real | PosInf | NegInf | NaN

fun float_lt :: "pyfloat \<Rightarrow> pyfloat \<Rightarrow> bool" where
  "float_lt NaN b = False"
| "float_lt a NaN = False"
| "float_lt (Finite a) (Finite b) = (a < b)"
| "float_lt (Finite a) PosInf = True"
| "float_lt NegInf (Finite b) = True"
| "float_lt NegInf PosInf = True"
| "float_lt a b = False"

fun float_le :: "pyfloat \<Rightarrow> pyfloat \<Rightarrow> bool" where
  "float_le NaN b = False"
| "float_le a NaN = False"
| "float_le (Finite a) (Finite b) = (a \<le> b)"
| "float_le NegInf b = True"
| "float_le a PosInf = True"
| "float_le a b = False"

text \<open>\<open>math.isfinite\<close> and \<open>math.isnan\<close>.\<close>

fun isfinite :: "pyfloat \<Rightarrow> bool" where
  "isfinite (Finite a) = True"
| "isfinite a = False"

fun isnan :: "pyfloat \<Rightarrow> bool" where
  "isnan NaN = True"
| "isnan a = False"

text \<open>
  Exceptions are values. \<open>KeyError\<close> and \<open>ValueError\<close> are the two classes the
  script's own pandas calls raise; \<open>LibraryError\<close> stands for any exception that comes
  out of library code (network, CSV parser, numerical fitting) with its message.
\<close>

datatype py_error = KeyError "string list" | ValueError string | LibraryError string

section \<open>The statsmodels interface\<close>

text \<open>
  A non-seasonal order is a triple \<open>(p, d, q)\<close>, a seasonal order a 4-tuple
  \<open>(P, D, Q, s)\<close> of Python ints. The script passes \<open>order=\<close> and
  \<open>seasonal_order=\<close> to \<open>SARIMAX\<close>, either tuples or \<open>None\<close>.

  The library is not part of the repository: it is a parameter of the model.
  \<open>SARIMAX_fit ts order seasonal_order\<close> is the constructor call
  \<open>SARIMAX(ts, order=.., seasonal_order=.., enforce_stationarity=False,
  enforce_invertibility=False)\<close> followed by \<open>.fit(disp=False)\<close>: it raises or it
  returns a results object. \<open>aic\<close> reads \<open>results.aic\<close>. \<open>get_forecast results steps\<close>
  is \<open>results.get_forecast(steps=steps)\<close>: it raises or it returns a forecast object,
  here the pair of its \<open>predicted_mean\<close> (a column of floats) and its method
  \<open>conf_int\<close>. The method takes the level \<open>alpha\<close> as an optional argument (\<open>None\<close>
  when the caller leaves it out, so that the library's default level applies) and
  returns a table of two columns, here a list of rows.
\<close>

type_synonym order = "int \<times> int \<times> int"
type_synonym seasonal_order = "int \<times> int \<times> int \<times> int"

text \<open>
  A pandas \<open>Series\<close> with a datetime index: the list of its (index, value) rows. The
  script parses the dates with the format \<open>%b-%Y\<close>, so that every timestamp is the first
  day of a month at midnight: a timestamp is a year and a month (1 to 12). \<open>NaT\<close>, the
  missing timestamp, is \<open>None\<close>. The range of years that pandas can represent is not
  modelled.
\<close>

record timestamp =
  year :: int
  month :: nat

type_synonym series = "(timestamp option \<times> pyfloat) list"

record ('ts, 'm) statsmodels =
  SARIMAX_fit :: "'ts \<Rightarrow> order option \<Rightarrow> seasonal_order option \<Rightarrow> py_error + 'm"
  aic :: "'m \<Rightarrow> pyfloat"
  get_forecast ::
    "'m \<Rightarrow> nat \<Rightarrow> py_error + (pyfloat list \<times> (real option \<Rightarrow> (pyfloat \<times> pyfloat) list))"

section \<open>optimize\_sarima\<close>

text \<open>
  \<open>itertools.product(xs, ys, zs)\<close>: all triples, the rightmost component varying
  fastest.
\<close>

definition itertools_product :: "'a list \<Rightarrow> 'b list \<Rightarrow> 'c list \<Rightarrow> ('a \<times> 'b \<times> 'c) list" where
  "itertools_product xs ys zs = List.product xs (List.product ys zs)"

text \<open>The three local variables the loops update.\<close>

record search_state =
  best_aic :: pyfloat
  best_order :: "order option"
  best_seasonal_order :: "seasonal_order option"

definition initial_search_state :: search_state where
  "initial_search_state = \<lparr>best_aic = PosInf, best_order = None, best_seasonal_order = None\<rparr>"

text \<open>
  The body of the inner loop: the \<open>try\<close> block fits the candidate and updates the three
  variables when its AIC is strictly below the running best; the bare \<open>except\<close>
  swallows every exception and goes on with the next candidate.
\<close>

definition try_candidate ::
  "('ts, 'm, 'x) statsmodels_scheme \<Rightarrow> 'ts \<Rightarrow> int \<Rightarrow> order \<Rightarrow> int \<times> int \<times> int \<Rightarrow>
   search_state \<Rightarrow> search_state" where
  "try_candidate L ts_data seasonality order seasonal_order_parts st =
     (case seasonal_order_parts of (sP, sD, sQ) \<Rightarrow>
        let seasonal_order = (sP, sD, sQ, seasonality) in
        (case SARIMAX_fit L ts_data (Some order) (Some seasonal_order) of
           Inl e \<Rightarrow> st
         | Inr results \<Rightarrow>
             if float_lt (aic L results) (best_aic st)
             then st\<lparr>best_aic := aic L results,
                     best_order := Some order,
                     best_seasonal_order := Some seasonal_order\<rparr>
             else st))"

definition optimize_sarima ::
  "('ts, 'm, 'x) statsmodels_scheme \<Rightarrow> 'ts \<Rightarrow> int list \<Rightarrow> int list \<Rightarrow> int list \<Rightarrow>
   int list \<Rightarrow> int list \<Rightarrow> int list \<Rightarrow> int \<Rightarrow> order option \<times> seasonal_order option" where
  "optimize_sarima L ts_data p_range d_range q_range sP_range sD_range sQ_range seasonality =
     (let param_combinations = itertools_product p_range d_range q_range;
          seasonal_param_combinations = itertools_product sP_range sD_range sQ_range;
          st = fold (\<lambda>order.
                  fold (try_candidate L ts_data seasonality order) seasonal_param_combinations)
                 param_combinations initial_search_state
      in (best_order st, best_seasonal_order st))"

section \<open>Auxiliary notions for the search\<close>

text \<open>
  The candidates in the order in which the two nested loops reach them: for every order
  of \<open>param_combinations\<close>, every seasonal triple of \<open>seasonal_param_combinations\<close>
  with the period appended.
\<close>

definition search_grid ::
  "int list \<Rightarrow> int list \<Rightarrow> int list \<Rightarrow> int list \<Rightarrow> int list \<Rightarrow> int list \<Rightarrow> int \<Rightarrow>
   (order \<times> seasonal_order) list" where
  "search_grid p_range d_range q_range sP_range sD_range sQ_range seasonality =
     concat (map (\<lambda>order. map (\<lambda>(sP, sD, sQ). (order, (sP, sD, sQ, seasonality)))
                               (itertools_product sP_range sD_range sQ_range))
                 (itertools_product p_range d_range q_range))"

text \<open>
  The score of a candidate: the AIC of its fit, or nothing when the fit raises.
\<close>

definition candidate_score ::
  "('ts, 'm, 'x) statsmodels_scheme \<Rightarrow> 'ts \<Rightarrow> order \<times> seasonal_order \<Rightarrow> pyfloat option" where
  "candidate_score L ts_data c =
     (case SARIMAX_fit L ts_data (Some (fst c)) (Some (snd c)) of
        Inl e \<Rightarrow> None
      | Inr results \<Rightarrow> Some (aic L results))"

text \<open>A candidate can be selected when it converged with a score below \<open>+inf\<close>.\<close>

definition eligible ::
  "('ts, 'm, 'x) statsmodels_scheme \<Rightarrow> 'ts \<Rightarrow> order \<times> seasonal_order \<Rightarrow> bool" where
  "eligible L ts_data c =
     (case candidate_score L ts_data c of None \<Rightarrow> False | Some a \<Rightarrow> float_lt a PosInf)"

text \<open>The loop body on a candidate of \<open>search_grid\<close>, and the loop invariant.\<close>

definition score_step ::
  "('ts, 'm, 'x) statsmodels_scheme \<Rightarrow> 'ts \<Rightarrow> order \<times> seasonal_order \<Rightarrow>
   search_state \<Rightarrow> search_state" where
  "score_step L ts_data c st =
     (case candidate_score L ts_data c of
        None \<Rightarrow> st
      | Some a \<Rightarrow>
          if float_lt a (best_aic st)
          then st\<lparr>best_aic := a, best_order := Some (fst c), best_seasonal_order := Some (snd c)\<rparr>
          else st)"

definition search_inv ::
  "('ts, 'm, 'x) statsmodels_scheme \<Rightarrow> 'ts \<Rightarrow> (order \<times> seasonal_order) list \<Rightarrow>
   search_state \<Rightarrow> bool" where
  "search_inv L ts cs st =
     (case best_order st of
        None \<Rightarrow> best_seasonal_order st = None \<and> best_aic st = PosInf \<and>
                (\<forall>c \<in> set cs. \<not> eligible L ts c)
      | Some ord \<Rightarrow>
          (\<exists>i. i < length cs \<and> fst (cs ! i) = ord \<and>
             best_seasonal_order st = Some (snd (cs ! i)) \<and>
             candidate_score L ts (cs ! i) = Some (best_aic st) \<and>
             float_lt (best_aic st) PosInf \<and>
             (\<forall>c \<in> set cs. \<forall>b. candidate_score L ts c = Some b \<longrightarrow> \<not> float_lt b (best_aic st)) \<and>
             (\<forall>c \<in> set (take i cs). \<forall>b. candidate_score L ts c = Some b \<longrightarrow> float_lt b PosInf
                  \<longrightarrow> float_lt (best_aic st) b)))"

section \<open>Dates\<close>

text \<open>
  \<open>t + pd.DateOffset(months=n)\<close> for a month count between -11 and 11: the month
  moves by \<open>n\<close> and the year follows when the month leaves 1 to 12 (the day, always 1,
  stays).
\<close>

definition DateOffset_months :: "timestamp \<Rightarrow> int \<Rightarrow> timestamp" where
  "DateOffset_months t n =
     (let m = int (month t) + n in
      if m > 12 then \<lparr>year = year t + 1, month = nat (m - 12)\<rparr>
      else if m < 1 then \<lparr>year = year t - 1, month = nat (m + 12)\<rparr>
      else \<lparr>year = year t, month = nat m\<rparr>)"

text \<open>
  \<open>pd.date_range(start=start, periods=periods, freq='MS')\<close> from a month start: the
  start itself, then one month start after the other.
\<close>

fun date_range :: "timestamp \<Rightarrow> nat \<Rightarrow> timestamp list" where
  "date_range start 0 = []"
| "date_range start (Suc periods) = start # date_range (DateOffset_months start 1) periods"

text \<open>The number of months since the year 0, and the order of an index with \<open>NaT\<close> last.\<close>

definition month_index :: "timestamp \<Rightarrow> int" where
  "month_index t = 12 * year t + int (month t) - 1"

definition index_key :: "timestamp option \<Rightarrow> bool \<times> int" where
  "index_key i = (case i of None \<Rightarrow> (True, 0) | Some t \<Rightarrow> (False, month_index t))"

text \<open>\<open>index.max()\<close>: the latest timestamp, \<open>NaT\<close> skipped; \<open>NaT\<close> when there is none.\<close>

definition later :: "timestamp option \<Rightarrow> timestamp option \<Rightarrow> timestamp option" where
  "later acc i =
     (case i of
        None \<Rightarrow> acc
      | Some t \<Rightarrow>
          (case acc of
             None \<Rightarrow> Some t
           | Some a \<Rightarrow> if month_index a < month_index t then Some t else Some a))"

definition index_max :: "timestamp option list \<Rightarrow> timestamp option" where
  "index_max idx = fold (\<lambda>i acc. later acc i) idx None"

section \<open>Data frames and the preparation of the data\<close>

text \<open>
  A frame is its column names and its rows; a row is its index entry and its cells (a
  missing cell is NaN, as in pandas). In the frame that \<open>read_csv\<close> returns the first
  component of a row is the text of its \<open>Date\<close> cell (\<open>None\<close> when the cell is
  missing), which is a column of the frame when \<open>''Date''\<close> is among the columns.
\<close>

record 'i frame =
  columns :: "string list"
  rows :: "('i \<times> (string \<Rightarrow> pyfloat)) list"

definition target_gases :: "string list" where
  "target_gases = [''CO2_seasonal'', ''CH4_seasonal'', ''N2O_seasonal'', ''SF6_seasonal'']"

text \<open>
  \<open>pd.to_datetime(df['Date'], format='%b-%Y')\<close>: \<open>strptime\<close> is the library's parser
  of one cell; a missing cell becomes \<open>NaT\<close>, a cell that does not match the format
  raises.
\<close>

fun to_datetime ::
  "(string \<Rightarrow> timestamp option) \<Rightarrow> string option list \<Rightarrow> py_error + timestamp option list" where
  "to_datetime strptime [] = Inr []"
| "to_datetime strptime (None # cells) =
     (case to_datetime strptime cells of
        Inl e \<Rightarrow> Inl e
      | Inr ts \<Rightarrow> Inr (None # ts))"
| "to_datetime strptime (Some text # cells) =
     (case strptime text of
        None \<Rightarrow> Inl (ValueError text)
      | Some t \<Rightarrow>
          (case to_datetime strptime cells of
             Inl e \<Rightarrow> Inl e
           | Inr ts \<Rightarrow> Inr (Some t # ts)))"

text \<open>
  Lines 50 to 54: parse the dates, make them the index, sort by the index. The sort of
  pandas puts the dates in ascending order with \<open>NaT\<close> last and promises no order among
  the rows of one date. Whatever order it gives them is the order of some rank of the
  rows (rows that are equal need none), so the sort takes such a rank, \<open>tie_rank\<close>, as
  a parameter: it orders by the date first and by the rank within one date.
\<close>

definition set_date_index ::
  "(string \<Rightarrow> timestamp option) \<Rightarrow> string option frame \<Rightarrow> py_error + timestamp option frame" where
  "set_date_index strptime df =
     (if ''Date'' \<notin> set (columns df) then Inl (KeyError [''Date''])
      else case to_datetime strptime (map fst (rows df)) of
        Inl e \<Rightarrow> Inl e
      | Inr dates \<Rightarrow>
          Inr \<lparr>columns = removeAll ''Date'' (columns df),
               rows = zip dates (map snd (rows df))\<rparr>)"

definition sort_index ::
  "(timestamp option \<times> (string \<Rightarrow> pyfloat) \<Rightarrow> nat) \<Rightarrow>
   timestamp option frame \<Rightarrow> timestamp option frame" where
  "sort_index tie_rank df =
     df\<lparr>rows := sort_key (\<lambda>r. (index_key (fst r), tie_rank r)) (rows df)\<rparr>"

text \<open>\<open>df[names]\<close> with a list of names, and \<open>df[name]\<close> with one name.\<close>

definition select_columns :: "'i frame \<Rightarrow> string list \<Rightarrow> py_error + 'i frame" where
  "select_columns df names =
     (case filter (\<lambda>c. c \<notin> set (columns df)) names of
        [] \<Rightarrow> Inr (df\<lparr>columns := names\<rparr>)
      | m # ms \<Rightarrow> Inl (KeyError (m # ms)))"

definition column :: "'i frame \<Rightarrow> string \<Rightarrow> py_error + ('i \<times> pyfloat) list" where
  "column df name =
     (if name \<in> set (columns df) then Inr (map (\<lambda>r. (fst r, snd r name)) (rows df))
      else Inl (KeyError [name]))"

text \<open>\<open>dropna\<close>: a row stays when none of its cells in the frame's columns is NaN.\<close>

definition complete_row :: "string list \<Rightarrow> 'i \<times> (string \<Rightarrow> pyfloat) \<Rightarrow> bool" where
  "complete_row names r = list_all (\<lambda>c. \<not> isnan (snd r c)) names"

definition dropna :: "'i frame \<Rightarrow> 'i frame" where
  "dropna df = df\<lparr>rows := filter (complete_row (columns df)) (rows df)\<rparr>"

text \<open>Lines 50 to 66 together: from the frame read to the cleaned frame \<open>df\<close>.\<close>

definition prepare ::
  "(string \<Rightarrow> timestamp option) \<Rightarrow> (timestamp option \<times> (string \<Rightarrow> pyfloat) \<Rightarrow> nat) \<Rightarrow>
   string option frame \<Rightarrow> py_error + timestamp option frame" where
  "prepare strptime tie_rank raw =
     (case set_date_index strptime raw of
        Inl e \<Rightarrow> Inl e
      | Inr indexed \<Rightarrow>
          (case select_columns (sort_index tie_rank indexed) target_gases of
             Inl e \<Rightarrow> Inl e
           | Inr df_seasonal \<Rightarrow> Inr (dropna df_seasonal)))"

section \<open>The forecasting loop\<close>

definition forecast_horizon :: nat where
  "forecast_horizon = 6"

text \<open>\<open>range(0, 2)\<close>, the range of each of the six grid components, and the period.\<close>

definition range_0_2 :: "int list" where
  "range_0_2 = [0, 1]"

definition s_period :: int where
  "s_period = 12"

record forecast_record =
  Gas :: string
  Date :: timestamp
  Forecast :: pyfloat
  Lower_CI :: pyfloat
  Upper_CI :: pyfloat

text \<open>
  \<open>pd.DataFrame({'Gas': gas, 'Date': .., 'Forecast': .., 'Lower_CI': .., 'Upper_CI': ..})\<close>:
  the scalar is repeated on every row; the constructor raises when the four arrays do
  not have one length.
\<close>

definition DataFrame ::
  "string \<Rightarrow> timestamp list \<Rightarrow> pyfloat list \<Rightarrow> pyfloat list \<Rightarrow> pyfloat list \<Rightarrow>
   py_error + forecast_record list" where
  "DataFrame gas dates forecast lower upper =
     (if length forecast = length dates \<and> length lower = length dates \<and>
         length upper = length dates
      then Inr (map (\<lambda>i. \<lparr>Gas = gas, Date = dates ! i, Forecast = forecast ! i,
                           Lower_CI = lower ! i, Upper_CI = upper ! i\<rparr>)
                    [0..<length dates])
      else Inl (ValueError ''All arrays must be of the same length''))"

text \<open>
  The environment of a run: the two libraries' behaviour and what the network and the
  disk hold. \<open>read_csv\<close> is the outcome of \<open>pd.read_csv(url, na_values='#N/A')\<close>,
  \<open>strptime\<close> the date parser, \<open>tie_rank\<close> the order that the sort gives to rows of
  one date, \<open>logo_file\<close> tells whether \<open>logo_bmkg.png\<close> can be read. Writing the two
  output files is taken to succeed.
\<close>

record 'm environment = "(series, 'm) statsmodels" +
  read_csv :: "py_error + string option frame"
  strptime :: "string \<Rightarrow> timestamp option"
  tie_rank :: "timestamp option \<times> (string \<Rightarrow> pyfloat) \<Rightarrow> nat"
  logo_file :: bool

text \<open>The global variables that the loop reads and writes.\<close>

record globals =
  df :: "timestamp option frame"
  all_forecasts :: "forecast_record list list"

text \<open>
  The body of the loop over the gases (lines 109 to 137). No call is guarded: an
  exception of any of them ends the loop. The pair \<open>(best, best_seasonal)\<close> is the
  script's \<open>best_order, best_seasonal_order\<close>; \<open>conf_int None\<close> is the call
  \<open>forecast.conf_int()\<close>, which passes no level.
\<close>

definition forecast_gas ::
  "'m environment \<Rightarrow> timestamp option frame \<Rightarrow> string \<Rightarrow> py_error + forecast_record list" where
  "forecast_gas env frame gas =
     (case column frame gas of
        Inl e \<Rightarrow> Inl e
      | Inr ts \<Rightarrow>
          (case optimize_sarima env ts range_0_2 range_0_2 range_0_2
                  range_0_2 range_0_2 range_0_2 s_period of
             (best, best_seasonal) \<Rightarrow>
               (case SARIMAX_fit env ts best best_seasonal of
                  Inl e \<Rightarrow> Inl e
                | Inr sarima_result \<Rightarrow>
                    (case get_forecast env sarima_result forecast_horizon of
                       Inl e \<Rightarrow> Inl e
                     | Inr (forecast_mean, conf_int) \<Rightarrow>
                         let forecast_ci = conf_int None in
                         (case index_max (map fst ts) of
                            None \<Rightarrow> Inl (ValueError ''Neither `start` nor `end` can be NaT'')
                          | Some last_data_date \<Rightarrow>
                              let forecast_start_date = DateOffset_months last_data_date 1;
                                  forecast_dates = date_range forecast_start_date forecast_horizon
                              in DataFrame gas forecast_dates forecast_mean
                                   (map fst forecast_ci) (map snd forecast_ci))))))"

fun forecast_loop :: "'m environment \<Rightarrow> string list \<Rightarrow> globals \<Rightarrow> py_error + globals" where
  "forecast_loop env [] g = Inr g"
| "forecast_loop env (gas # gases) g =
     (case forecast_gas env (df g) gas of
        Inl e \<Rightarrow> Inl e
      | Inr forecast_df \<Rightarrow>
          forecast_loop env gases (g\<lparr>all_forecasts := all_forecasts g @ [forecast_df]\<rparr>))"

section \<open>The whole script\<close>

text \<open>
  How the process ends and what it has written by then. \<open>Exit_after_load_error e\<close> is
  the \<open>exit()\<close> of line 47, after the message with the error \<open>e\<close> is printed;
  \<open>Uncaught e\<close> is an exception that no handler catches, which ends the process with
  its traceback.
\<close>

datatype ending = Finished | Exit_after_load_error py_error | Uncaught py_error

text \<open>
  The chart of section 3, as far as the data goes: the logo when there is one, the
  history of the last twelve months and the forecasts.
\<close>

record html_chart =
  logo_available :: bool
  historical_filtered :: "timestamp option frame"
  forecasts :: "forecast_record list"

record process =
  ending :: ending
  csv_file :: "forecast_record list option"
  html_file :: "html_chart option"

definition last_12_months :: "timestamp option frame \<Rightarrow> timestamp option frame" where
  "last_12_months frame =
     (case index_max (map fst (rows frame)) of
        None \<Rightarrow> frame\<lparr>rows := []\<rparr>
      | Some latest \<Rightarrow>
          let last_12_months_start = DateOffset_months latest (- 11) in
          frame\<lparr>rows := filter (\<lambda>r. case fst r of
                                   None \<Rightarrow> False
                                 | Some t \<Rightarrow> month_index last_12_months_start \<le> month_index t)
                                (rows frame)\<rparr>)"

definition run :: "'m environment \<Rightarrow> process" where
  "run env =
     (case read_csv env of
        Inl e \<Rightarrow> \<lparr>ending = Exit_after_load_error e, csv_file = None, html_file = None\<rparr>
      | Inr raw \<Rightarrow>
          (case prepare (strptime env) (tie_rank env) raw of
             Inl e \<Rightarrow> \<lparr>ending = Uncaught e, csv_file = None, html_file = None\<rparr>
           | Inr cleaned \<Rightarrow>
               (case forecast_loop env target_gases \<lparr>df = cleaned, all_forecasts = []\<rparr> of
                  Inl e \<Rightarrow> \<lparr>ending = Uncaught e, csv_file = None, html_file = None\<rparr>
                | Inr g \<Rightarrow>
                    let final_forecast_df = concat (all_forecasts g) in
                    \<lparr>ending = Finished,
                     csv_file = Some final_forecast_df,
                     html_file = Some \<lparr>logo_available = logo_file env,
                                        historical_filtered = last_12_months (df g),
                                        forecasts = final_forecast_df\<rparr>\<rparr>)))"

section \<open>Sample environments\<close>

text \<open>
  A small table as the sheet could hold it: three months out of order, one of them with
  a missing methane value, and a column the script does not use.
\<close>

definition sample_sheet :: "string option frame" where
  "sample_sheet =
     \<lparr>columns = [''Date'', ''CO2_seasonal'', ''CH4_seasonal'', ''N2O_seasonal'',
                 ''SF6_seasonal'', ''CO2_trend''],
      rows = [(Some ''Dec-2024'', \<lambda>c. Finite 3),
              (Some ''Oct-2024'', \<lambda>c. Finite 1),
              (Some ''Nov-2024'', \<lambda>c. if c = ''CH4_seasonal'' then NaN else Finite 2)]\<rparr>"

definition sample_strptime :: "string \<Rightarrow> timestamp option" where
  "sample_strptime text =
     map_of [(''Oct-2024'', \<lparr>year = 2024, month = 10\<rparr>),
             (''Nov-2024'', \<lparr>year = 2024, month = 11\<rparr>),
             (''Dec-2024'', \<lparr>year = 2024, month = 12\<rparr>)] text"

text \<open>
  A stand-in for the fitting library. Absent orders are read as the default orders of
  statsmodels, \<open>(0, 0, 0)\<close> and \<open>(0, 0, 0, 0)\<close>. The results object is the fitted order
  pair. A fit with two differencing orders of 1 raises; the AIC of the others falls with
  the larger of the two autoregressive orders, so that several candidates share the
  lowest score.
\<close>

definition orders_or_default :: "order option \<Rightarrow> seasonal_order option \<Rightarrow> order \<times> seasonal_order" where
  "orders_or_default ord sord =
     (case ord of None \<Rightarrow> (0, 0, 0) | Some a \<Rightarrow> a,
      case sord of None \<Rightarrow> (0, 0, 0, 0) | Some b \<Rightarrow> b)"

definition sample_fit ::
  "series \<Rightarrow> order option \<Rightarrow> seasonal_order option \<Rightarrow> py_error + order \<times> seasonal_order" where
  "sample_fit ts ord sord =
     (case orders_or_default ord sord of
        ((p, d, q), (P, D, Q, s)) \<Rightarrow>
          if d = 1 \<and> D = 1 then Inl (LibraryError ''LinAlgError'')
          else Inr ((p, d, q), (P, D, Q, s)))"

definition sample_aic :: "order \<times> seasonal_order \<Rightarrow> pyfloat" where
  "sample_aic m =
     (case m of ((p, d, q), (P, D, Q, s)) \<Rightarrow>
        Finite (of_int (10 - 2 * max p P + d + q + D + Q)))"

definition sample_get_forecast ::
  "order \<times> seasonal_order \<Rightarrow> nat \<Rightarrow>
   py_error + (pyfloat list \<times> (real option \<Rightarrow> (pyfloat \<times> pyfloat) list))" where
  "sample_get_forecast m steps =
     Inr (map (\<lambda>i. Finite (of_nat i)) [0..<steps],
          \<lambda>alpha. map (\<lambda>i. (Finite (of_nat i - 1), Finite (of_nat i + 1))) [0..<steps])"

definition sample_env :: "(order \<times> seasonal_order) environment" where
  "sample_env =
     \<lparr>SARIMAX_fit = sample_fit, aic = sample_aic, get_forecast = sample_get_forecast,
      read_csv = Inr sample_sheet, strptime = sample_strptime, tie_rank = (\<lambda>r. 0),
      logo_file = False\<rparr>"

definition sample_series :: series where
  "sample_series = [(Some \<lparr>year = 2024, month = 10\<rparr>, Finite 1),
                    (Some \<lparr>year = 2024, month = 12\<rparr>, Finite 3)]"

text \<open>What the script makes of the sample: the cleaned frame and the forecast of a gas.\<close>

definition sample_cleaned :: "timestamp option frame" where
  "sample_cleaned =
     \<lparr>columns = [''CO2_seasonal'', ''CH4_seasonal'', ''N2O_seasonal'', ''SF6_seasonal''],
      rows = [(Some \<lparr>year = 2024, month = 10\<rparr>, \<lambda>c. Finite 1),
              (Some \<lparr>year = 2024, month = 12\<rparr>, \<lambda>c. Finite 3)]\<rparr>"

definition sample_forecast :: "string \<Rightarrow> forecast_record list" where
  "sample_forecast gas =
     [\<lparr>Gas = gas, Date = \<lparr>year = 2025, month = 1\<rparr>,
       Forecast = Finite 0, Lower_CI = Finite (- 1), Upper_CI = Finite 1\<rparr>,
      \<lparr>Gas = gas, Date = \<lparr>year = 2025, month = 2\<rparr>,
       Forecast = Finite 1, Lower_CI = Finite 0, Upper_CI = Finite 2\<rparr>,
      \<lparr>Gas = gas, Date = \<lparr>year = 2025, month = 3\<rparr>,
       Forecast = Finite 2, Lower_CI = Finite 1, Upper_CI = Finite 3\<rparr>,
      \<lparr>Gas = gas, Date = \<lparr>year = 2025, month = 4\<rparr>,
       Forecast = Finite 3, Lower_CI = Finite 2, Upper_CI = Finite 4\<rparr>,
      \<lparr>Gas = gas, Date = \<lparr>year = 2025, month = 5\<rparr>,
       Forecast = Finite 4, Lower_CI = Finite 3, Upper_CI = Finite 5\<rparr>,
      \<lparr>Gas = gas, Date = \<lparr>year = 2025, month = 6\<rparr>,
       Forecast = Finite 5, Lower_CI = Finite 4, Upper_CI = Finite 6\<rparr>]"

text \<open>
  Two libraries for which no candidate of the grid can be fitted to a series that has
  observations. Both fit an empty series and read absent orders as the default orders;
  for the first the fit of the default orders converges, for the second it raises like
  any other.
\<close>

definition lenient_fit ::
  "series \<Rightarrow> order option \<Rightarrow> seasonal_order option \<Rightarrow> py_error + order \<times> seasonal_order" where
  "lenient_fit ts ord sord =
     (if ts \<noteq> [] \<and> (ord \<noteq> None \<or> sord \<noteq> None) then Inl (LibraryError ''LinAlgError'')
      else Inr (orders_or_default ord sord))"


definition lenient_env :: "(order \<times> seasonal_order) environment" where
  "lenient_env = sample_env\<lparr>SARIMAX_fit := lenient_fit\<rparr>"







text \<open>
  A library whose fits converge without a usable result: every AIC is NaN, and so are the
  forecast and both bounds of its interval on every row.
\<close>

definition nan_get_forecast ::
  "order \<times> seasonal_order \<Rightarrow> nat \<Rightarrow>
   py_error + (pyfloat list \<times> (real option \<Rightarrow> (pyfloat \<times> pyfloat) list))" where
  "nan_get_forecast m steps = Inr (replicate steps NaN, \<lambda>alpha. replicate steps (NaN, NaN))"

definition nan_env :: "(order \<times> seasonal_order) environment" where
  "nan_env = sample_env\<lparr>aic := \<lambda>m. NaN, get_forecast := nan_get_forecast\<rparr>"

definition nan_forecast :: "string \<Rightarrow> forecast_record list" where
  "nan_forecast gas =
     map (\<lambda>d. \<lparr>Gas = gas, Date = d, Forecast = NaN, Lower_CI = NaN, Upper_CI = NaN\<rparr>)
       [\<lparr>year = 2025, month = 1\<rparr>, \<lparr>year = 2025, month = 2\<rparr>, \<lparr>year = 2025, month = 3\<rparr>,
        \<lparr>year = 2025, month = 4\<rparr>, \<lparr>year = 2025, month = 5\<rparr>, \<lparr>year = 2025, month = 6\<rparr>]"

section \<open>The comparison of floats\<close>

lemma float_lt_irrefl: "\<not> float_lt a a"
  by (cases a) simp_all

lemma float_lt_trans: "float_lt a b \<Longrightarrow> float_lt b c \<Longrightarrow> float_lt a c"
  by (cases a; cases b; cases c) simp_all

lemma float_lt_below_inf_total:
  "float_lt a b \<Longrightarrow> float_lt c PosInf \<Longrightarrow> \<not> float_lt c b \<Longrightarrow> float_lt a c"
  by (cases a; cases b; cases c) simp_all

lemma float_lt_not_nan: "float_lt a b \<Longrightarrow> a \<noteq> NaN \<and> b \<noteq> NaN"
  by (cases a; cases b) simp_all

lemma float_lt_PosInf_iff: "float_lt a PosInf \<longleftrightarrow> (a \<noteq> NaN \<and> a \<noteq> PosInf)"
  by (cases a) simp_all

lemma float_le_iff: "float_le a b \<longleftrightarrow> (a \<noteq> NaN \<and> b \<noteq> NaN \<and> \<not> float_lt b a)"
  by (cases a; cases b) auto

lemma try_candidate_step:
  "try_candidate L ts s order (sP, sD, sQ) st = score_step L ts (order, (sP, sD, sQ, s)) st"
  by (simp add: try_candidate_def score_step_def candidate_score_def split: sum.splits)

lemma inner_fold_step:
  "fold (try_candidate L ts s order) parts =
   fold (score_step L ts) (map (\<lambda>(sP, sD, sQ). (order, (sP, sD, sQ, s))) parts)"
proof
  fix st
  show "fold (try_candidate L ts s order) parts st =
        fold (score_step L ts) (map (\<lambda>(sP, sD, sQ). (order, (sP, sD, sQ, s))) parts) st"
    by (induction parts arbitrary: st) (auto simp: try_candidate_step)
qed

lemma outer_fold_concat:
  "fold (\<lambda>x. fold f (g x)) xs = fold f (concat (map g xs))"
proof
  fix st
  show "fold (\<lambda>x. fold f (g x)) xs st = fold f (concat (map g xs)) st"
    by (induction xs arbitrary: st) auto
qed

lemma search_as_single_fold:
  "optimize_sarima L ts p d q sP sD sQ s =
     (let st = fold (score_step L ts) (search_grid p d q sP sD sQ s) initial_search_state
      in (best_order st, best_seasonal_order st))"
proof -
  have "fold (\<lambda>order. fold (try_candidate L ts s order) (itertools_product sP sD sQ))
             (itertools_product p d q)
        = fold (score_step L ts) (search_grid p d q sP sD sQ s)"
    unfolding inner_fold_step search_grid_def by (rule outer_fold_concat)
  then show ?thesis
    by (simp add: optimize_sarima_def Let_def)
qed

lemma eligible_iff:
  "eligible L ts c \<longleftrightarrow> (\<exists>a. candidate_score L ts c = Some a \<and> float_lt a PosInf)"
  by (simp add: eligible_def split: option.splits)

lemma search_inv_init: "search_inv L ts [] initial_search_state"
  by (simp add: search_inv_def initial_search_state_def)

lemma search_inv_keep_None:
  assumes "search_inv L ts cs st" "best_order st = None" "\<not> eligible L ts c"
  shows "search_inv L ts (cs @ [c]) st"
  using assms by (simp add: search_inv_def)

lemma search_inv_keep_Some:
  assumes "search_inv L ts cs st" "best_order st = Some ord"
    "\<forall>b. candidate_score L ts c = Some b \<longrightarrow> \<not> float_lt b (best_aic st)"
  shows "search_inv L ts (cs @ [c]) st"
proof -
  from assms(1,2) obtain i where i: "i < length cs" "fst (cs ! i) = ord"
      "best_seasonal_order st = Some (snd (cs ! i))"
      "candidate_score L ts (cs ! i) = Some (best_aic st)"
      "float_lt (best_aic st) PosInf"
      "\<forall>c \<in> set cs. \<forall>b. candidate_score L ts c = Some b \<longrightarrow> \<not> float_lt b (best_aic st)"
      "\<forall>c \<in> set (take i cs). \<forall>b. candidate_score L ts c = Some b \<longrightarrow> float_lt b PosInf
                  \<longrightarrow> float_lt (best_aic st) b"
    by (auto simp: search_inv_def)
  show ?thesis
    unfolding search_inv_def assms(2) option.case
    apply (rule exI[of _ i])
    using i assms(3) by (simp add: nth_append)
qed

lemma search_inv_update:
  assumes inv: "search_inv L ts cs st"
      and sc: "candidate_score L ts c = Some a"
      and lt: "float_lt a (best_aic st)"
  shows "search_inv L ts (cs @ [c])
           (st\<lparr>best_aic := a, best_order := Some (fst c), best_seasonal_order := Some (snd c)\<rparr>)"
proof -
  have a_inf: "float_lt a PosInf"
    using lt by (cases a; cases "best_aic st") simp_all
  have lowest: "\<forall>c' \<in> set cs. \<forall>b. candidate_score L ts c' = Some b \<longrightarrow> \<not> float_lt b a"
  proof (cases "best_order st")
    case None
    with inv have "\<forall>c' \<in> set cs. \<not> eligible L ts c'" by (simp add: search_inv_def)
    then have "\<forall>c' \<in> set cs. \<forall>b. candidate_score L ts c' = Some b \<longrightarrow> \<not> float_lt b PosInf"
      unfolding eligible_iff by blast
    then show ?thesis
      using a_inf by (blast dest: float_lt_trans)
  next
    case (Some ord)
    with inv have "\<forall>c' \<in> set cs. \<forall>b. candidate_score L ts c' = Some b \<longrightarrow> \<not> float_lt b (best_aic st)"
      by (auto simp: search_inv_def)
    then show ?thesis using lt by (blast dest: float_lt_trans)
  qed
  have earlier: "\<forall>c' \<in> set cs. \<forall>b. candidate_score L ts c' = Some b \<longrightarrow> float_lt b PosInf
                  \<longrightarrow> float_lt a b"
  proof (cases "best_order st")
    case None
    with inv have "\<forall>c' \<in> set cs. \<not> eligible L ts c'" by (simp add: search_inv_def)
    then show ?thesis unfolding eligible_iff by blast
  next
    case (Some ord)
    with inv have "\<forall>c' \<in> set cs. \<forall>b. candidate_score L ts c' = Some b \<longrightarrow> \<not> float_lt b (best_aic st)"
      by (auto simp: search_inv_def)
    then show ?thesis using lt by (blast intro: float_lt_below_inf_total)
  qed
  let ?st' = "st\<lparr>best_aic := a, best_order := Some (fst c), best_seasonal_order := Some (snd c)\<rparr>"
  let ?cs' = "cs @ [c]"
  have "length cs < length ?cs' \<and> fst (?cs' ! length cs) = fst c \<and>
        best_seasonal_order ?st' = Some (snd (?cs' ! length cs)) \<and>
        candidate_score L ts (?cs' ! length cs) = Some (best_aic ?st') \<and>
        float_lt (best_aic ?st') PosInf \<and>
        (\<forall>c' \<in> set ?cs'. \<forall>b. candidate_score L ts c' = Some b \<longrightarrow> \<not> float_lt b (best_aic ?st')) \<and>
        (\<forall>c' \<in> set (take (length cs) ?cs'). \<forall>b. candidate_score L ts c' = Some b \<longrightarrow>
            float_lt b PosInf \<longrightarrow> float_lt (best_aic ?st') b)"
    using sc a_inf lowest earlier by (simp add: float_lt_irrefl)
  then have "\<exists>i. i < length ?cs' \<and> fst (?cs' ! i) = fst c \<and>
        best_seasonal_order ?st' = Some (snd (?cs' ! i)) \<and>
        candidate_score L ts (?cs' ! i) = Some (best_aic ?st') \<and>
        float_lt (best_aic ?st') PosInf \<and>
        (\<forall>c' \<in> set ?cs'. \<forall>b. candidate_score L ts c' = Some b \<longrightarrow> \<not> float_lt b (best_aic ?st')) \<and>
        (\<forall>c' \<in> set (take i ?cs'). \<forall>b. candidate_score L ts c' = Some b \<longrightarrow>
            float_lt b PosInf \<longrightarrow> float_lt (best_aic ?st') b)"
    by (rule exI)
  moreover have "best_order ?st' = Some (fst c)" by simp
  ultimately show ?thesis
    unfolding search_inv_def by (simp only: option.case)
qed

lemma search_inv_step:
  assumes "search_inv L ts cs st"
  shows "search_inv L ts (cs @ [c]) (score_step L ts c st)"
proof (cases "candidate_score L ts c")
  case None
  then have same: "score_step L ts c st = st" by (simp add: score_step_def)
  show ?thesis
  proof (cases "best_order st")
    case N: None
    with assms None show ?thesis
      unfolding same by (intro search_inv_keep_None) (simp_all add: eligible_iff)
  next
    case (Some ord)
    with assms None show ?thesis
      unfolding same by (intro search_inv_keep_Some) simp_all
  qed
next
  case (Some a)
  show ?thesis
  proof (cases "float_lt a (best_aic st)")
    case True
    with Some have "score_step L ts c st =
       st\<lparr>best_aic := a, best_order := Some (fst c), best_seasonal_order := Some (snd c)\<rparr>"
      by (simp add: score_step_def)
    then show ?thesis using search_inv_update[OF assms Some True] by simp
  next
    case False
    with Some have same: "score_step L ts c st = st" by (simp add: score_step_def)
    show ?thesis
    proof (cases "best_order st")
      case N: None
      with assms have "best_aic st = PosInf" by (simp add: search_inv_def)
      with False Some have "\<not> eligible L ts c" by (simp add: eligible_iff)
      with assms N show ?thesis unfolding same by (intro search_inv_keep_None)
    next
      case S: (Some ord)
      with assms False Some show ?thesis
        unfolding same by (intro search_inv_keep_Some) simp_all
    qed
  qed
qed

lemma search_inv_fold:
  "search_inv L ts cs st \<Longrightarrow> search_inv L ts (cs @ ds) (fold (score_step L ts) ds st)"
proof (induction ds arbitrary: cs st)
  case Nil
  then show ?case by simp
next
  case (Cons d ds)
  from Cons.IH[OF search_inv_step[OF Cons.prems, of d]] show ?case by simp
qed

lemma search_inv_final:
  "search_inv L ts cs (fold (score_step L ts) cs initial_search_state)"
  using search_inv_fold[OF search_inv_init, of L ts cs] by simp


lemma float_lt_antisym_eq:
  "float_lt a PosInf \<Longrightarrow> float_lt b PosInf \<Longrightarrow> \<not> float_lt a b \<Longrightarrow> \<not> float_lt b a \<Longrightarrow> a = b"
  by (cases a; cases b) simp_all

lemma search_result_cases:
  assumes cs_def: "cs = search_grid p d q sP sD sQ s"
  shows "(optimize_sarima L ts p d q sP sD sQ s = (None, None) \<and> (\<forall>c \<in> set cs. \<not> eligible L ts c)) \<or>
         (\<exists>i a. i < length cs \<and>
            optimize_sarima L ts p d q sP sD sQ s = (Some (fst (cs ! i)), Some (snd (cs ! i))) \<and>
            candidate_score L ts (cs ! i) = Some a \<and> float_lt a PosInf \<and>
            (\<forall>c \<in> set cs. \<forall>b. candidate_score L ts c = Some b \<longrightarrow> \<not> float_lt b a) \<and>
            (\<forall>c \<in> set (take i cs). \<forall>b. candidate_score L ts c = Some b \<longrightarrow> float_lt b PosInf
                  \<longrightarrow> float_lt a b))"
proof -
  define st where "st = fold (score_step L ts) cs initial_search_state"
  have res: "optimize_sarima L ts p d q sP sD sQ s = (best_order st, best_seasonal_order st)"
    by (simp add: search_as_single_fold st_def cs_def Let_def)
  have inv: "search_inv L ts cs st"
    unfolding st_def by (rule search_inv_final)
  show ?thesis
  proof (cases "best_order st")
    case None
    with inv res show ?thesis by (simp add: search_inv_def)
  next
    case (Some ord)
    with inv obtain i where i: "i < length cs" "fst (cs ! i) = ord"
      "best_seasonal_order st = Some (snd (cs ! i))"
      "candidate_score L ts (cs ! i) = Some (best_aic st)"
      "float_lt (best_aic st) PosInf"
      "\<forall>c \<in> set cs. \<forall>b. candidate_score L ts c = Some b \<longrightarrow> \<not> float_lt b (best_aic st)"
      "\<forall>c \<in> set (take i cs). \<forall>b. candidate_score L ts c = Some b \<longrightarrow> float_lt b PosInf
                  \<longrightarrow> float_lt (best_aic st) b"
      by (auto simp: search_inv_def)
    have "optimize_sarima L ts p d q sP sD sQ s = (Some (fst (cs ! i)), Some (snd (cs ! i)))"
      using res Some i(2,3) by simp
    with i show ?thesis by blast
  qed
qed

lemma search_none_if_no_eligible:
  "\<forall>c \<in> set (search_grid p d q sP sD sQ s). \<not> eligible L ts c \<Longrightarrow>
   optimize_sarima L ts p d q sP sD sQ s = (None, None)"
  using search_result_cases[OF refl, of L ts p d q sP sD sQ s]
  by (auto simp: eligible_iff)

lemma search_picks_first_lowest:
  assumes cs_def: "cs = search_grid p d q sP sD sQ s"
      and i: "i < length cs"
      and sc: "candidate_score L ts (cs ! i) = Some a"
      and fin: "float_lt a PosInf"
      and low: "\<forall>c \<in> set cs. \<forall>b. candidate_score L ts c = Some b \<longrightarrow> \<not> float_lt b a"
      and first: "\<forall>c \<in> set (take i cs). candidate_score L ts c \<noteq> Some a"
  shows "optimize_sarima L ts p d q sP sD sQ s = (Some (fst (cs ! i)), Some (snd (cs ! i)))"
proof -
  have el: "eligible L ts (cs ! i)" using sc fin by (simp add: eligible_iff)
  have mem: "cs ! i \<in> set cs" using i by simp
  from search_result_cases[OF cs_def, of L ts] el mem
  obtain k b where k: "k < length cs"
      "optimize_sarima L ts p d q sP sD sQ s = (Some (fst (cs ! k)), Some (snd (cs ! k)))"
      "candidate_score L ts (cs ! k) = Some b" "float_lt b PosInf"
      "\<forall>c \<in> set cs. \<forall>b'. candidate_score L ts c = Some b' \<longrightarrow> \<not> float_lt b' b"
      "\<forall>c \<in> set (take k cs). \<forall>b'. candidate_score L ts c = Some b' \<longrightarrow> float_lt b' PosInf
                  \<longrightarrow> float_lt b b'"
    by blast
  have memk: "cs ! k \<in> set cs" using k(1) by simp
  have nab: "\<not> float_lt a b" using k(5) mem sc by blast
  have nba: "\<not> float_lt b a" using low memk k(3) by blast
  have ab: "a = b" using fin k(4) nab nba by (rule float_lt_antisym_eq)
  have "k = i"
  proof (rule ccontr)
    assume "k \<noteq> i"
    then consider "k < i" | "i < k" by linarith
    then show False
    proof cases
      case 1
      then have "cs ! k \<in> set (take i cs)"
        using i by (auto simp: in_set_conv_nth intro!: exI[of _ k])
      with first k(3) ab show False by blast
    next
      case 2
      then have "cs ! i \<in> set (take k cs)"
        using k(1) by (auto simp: in_set_conv_nth intro!: exI[of _ i])
      with k(6) sc fin have "float_lt b a" by blast
      with nba show False by simp
    qed
  qed
  with k(2) show ?thesis by simp
qed

lemma set_itertools_product:
  "set (itertools_product xs ys zs) = set xs \<times> set ys \<times> set zs"
  by (simp add: itertools_product_def)

lemma length_itertools_product:
  "length (itertools_product xs ys zs) = length xs * (length ys * length zs)"
  by (simp add: itertools_product_def)

lemma length_concat_const:
  "(\<forall>x \<in> set xs. length (f x) = n) \<Longrightarrow> length (concat (map f xs)) = length xs * n"
  by (induction xs) auto

lemma length_search_grid:
  "length (search_grid p d q sP sD sQ s) =
     (length p * (length d * length q)) * (length sP * (length sD * length sQ))"
  unfolding search_grid_def
  by (subst length_concat_const[where n = "length sP * (length sD * length sQ)"])
     (simp_all add: length_itertools_product)

lemma set_search_grid:
  "set (search_grid p d q sP sD sQ s) =
     (set p \<times> set d \<times> set q) \<times> (set sP \<times> set sD \<times> set sQ \<times> {s})"
  unfolding search_grid_def by (force simp: set_itertools_product)


section \<open>Claims about the search\<close>

lemmas sample_defs = sample_env_def sample_fit_def orders_or_default_def sample_aic_def
  sample_series_def
  candidate_score_def search_grid_def itertools_product_def

text \<open>
  Claim C1, as amended. The search goes through the whole product of the six ranges:
  \<open>search_grid\<close>, the candidates in the order of the nested loops, has as many elements
  as the product and holds exactly its elements. When no candidate converges with a score
  below \<open>+inf\<close>, the search returns the pair \<open>(None, None)\<close>. Otherwise it returns the
  candidate at position \<open>i\<close> whenever that candidate converged with a score \<open>a\<close> below
  \<open>+inf\<close>, no converged candidate has a score strictly below \<open>a\<close>, and no candidate
  before position \<open>i\<close> has the score \<open>a\<close>: the lowest score, the first-enumerated one on
  a tie. Candidates whose fit raises have no score and take no part.
\<close>

theorem optimize_sarima_first_lowest_below_inf:
  "length (search_grid p d q sP sD sQ s) =
     (length p * (length d * length q)) * (length sP * (length sD * length sQ)) \<and>
   set (search_grid p d q sP sD sQ s) =
     (set p \<times> set d \<times> set q) \<times> (set sP \<times> set sD \<times> set sQ \<times> {s}) \<and>
   ((\<forall>c \<in> set (search_grid p d q sP sD sQ s). \<not> eligible L ts c) \<longrightarrow>
      optimize_sarima L ts p d q sP sD sQ s = (None, None)) \<and>
   (i < length (search_grid p d q sP sD sQ s) \<and>
    candidate_score L ts (search_grid p d q sP sD sQ s ! i) = Some a \<and>
    float_lt a PosInf \<and>
    (\<forall>c \<in> set (search_grid p d q sP sD sQ s).
        \<forall>b. candidate_score L ts c = Some b \<longrightarrow> \<not> float_lt b a) \<and>
    (\<forall>c \<in> set (take i (search_grid p d q sP sD sQ s)). candidate_score L ts c \<noteq> Some a) \<longrightarrow>
      optimize_sarima L ts p d q sP sD sQ s =
        (Some (fst (search_grid p d q sP sD sQ s ! i)),
         Some (snd (search_grid p d q sP sD sQ s ! i))))"
  using length_search_grid[of p d q sP sD sQ s] set_search_grid[of p d q sP sD sQ s]
    search_none_if_no_eligible[of p d q sP sD sQ s L ts]
    search_picks_first_lowest[OF refl, of i p d q sP sD sQ s L ts a]
  by blast

text \<open>
  The theorem on a grid of four candidates with the scores 10, 8, 8, 8: the second
  candidate, the first of the three that share the lowest score, is returned. With a
  library whose every fit raises, nothing is returned.
\<close>

theorem optimize_sarima_first_lowest_below_inf_witness:
  "search_grid [0, 1] [0] [0] [0, 1] [0] [0] 12 =
     [((0, 0, 0), (0, 0, 0, 12)), ((0, 0, 0), (1, 0, 0, 12)),
      ((1, 0, 0), (0, 0, 0, 12)), ((1, 0, 0), (1, 0, 0, 12))] \<and>
   map (candidate_score sample_env sample_series) (search_grid [0, 1] [0] [0] [0, 1] [0] [0] 12) =
     [Some (Finite 10), Some (Finite 8), Some (Finite 8), Some (Finite 8)] \<and>
   optimize_sarima sample_env sample_series [0, 1] [0] [0] [0, 1] [0] [0] 12 =
     (Some (0, 0, 0), Some (1, 0, 0, 12)) \<and>
   optimize_sarima (sample_env\<lparr>SARIMAX_fit := \<lambda>ts ord sord. Inl (LibraryError ''LinAlgError'')\<rparr>)
       sample_series [0, 1] [0] [0] [0, 1] [0] [0] 12 = (None, None)"
  using optimize_sarima_first_lowest_below_inf
          [of "[0, 1]" "[0]" "[0]" "[0, 1]" "[0]" "[0]" 12 sample_env sample_series 1 "Finite 8"]
        optimize_sarima_first_lowest_below_inf
          [of "[0, 1]" "[0]" "[0]" "[0, 1]" "[0]" "[0]" 12
              "sample_env\<lparr>SARIMAX_fit := \<lambda>ts ord sord. Inl (LibraryError ''LinAlgError'')\<rparr>"
              sample_series 0 NaN]
  by (simp add: sample_defs eligible_def)

text \<open>
  Claim C1 as it is stated fails: the only candidate of this grid converges, with the
  score \<open>+inf\<close>, so it is the converged candidate of lowest score; the search returns
  \<open>(None, None)\<close>, since \<open>inf < inf\<close> is false.
\<close>

theorem optimize_sarima_inf_score_counterexample:
  "search_grid [0] [0] [0] [0] [0] [0] 12 = [((0, 0, 0), (0, 0, 0, 12))] \<and>
   candidate_score (sample_env\<lparr>aic := \<lambda>m. PosInf\<rparr>) sample_series ((0, 0, 0), (0, 0, 0, 12))
     = Some PosInf \<and>
   optimize_sarima (sample_env\<lparr>aic := \<lambda>m. PosInf\<rparr>) sample_series [0] [0] [0] [0] [0] [0] 12
     = (None, None)"
  by (simp add: sample_defs optimize_sarima_def try_candidate_def initial_search_state_def)


text \<open>
  Claim C4, as amended. The search returns either the pair \<open>(None, None)\<close> or both
  orders of one candidate of the grid that converged with a score strictly below \<open>+inf\<close>
  (so neither NaN nor \<open>+inf\<close>); one component is absent exactly when the other is.
\<close>

theorem optimize_sarima_both_or_none:
  "(optimize_sarima L ts p d q sP sD sQ s = (None, None) \<or>
    (\<exists>ord sord a.
       optimize_sarima L ts p d q sP sD sQ s = (Some ord, Some sord) \<and>
       (ord, sord) \<in> set (search_grid p d q sP sD sQ s) \<and>
       candidate_score L ts (ord, sord) = Some a \<and> float_lt a PosInf)) \<and>
   ((fst (optimize_sarima L ts p d q sP sD sQ s) = None) =
    (snd (optimize_sarima L ts p d q sP sD sQ s) = None))"
proof -
  let ?cs = "search_grid p d q sP sD sQ s"
  let ?res = "optimize_sarima L ts p d q sP sD sQ s"
  from search_result_cases[OF refl, of L ts p d q sP sD sQ s]
  consider "?res = (None, None)"
    | i a where "i < length ?cs" "?res = (Some (fst (?cs ! i)), Some (snd (?cs ! i)))"
        "candidate_score L ts (?cs ! i) = Some a" "float_lt a PosInf"
    by blast
  then show ?thesis
  proof cases
    case 1
    then show ?thesis by simp
  next
    case 2
    have "(fst (?cs ! i), snd (?cs ! i)) \<in> set ?cs"
      using 2(1) by simp
    moreover have "candidate_score L ts (fst (?cs ! i), snd (?cs ! i)) = Some a"
      using 2(3) by simp
    ultimately have "\<exists>ord sord a. ?res = (Some ord, Some sord) \<and> (ord, sord) \<in> set ?cs \<and>
        candidate_score L ts (ord, sord) = Some a \<and> float_lt a PosInf"
      using 2(2,4) by blast
    then show ?thesis using 2(2) by simp
  qed
qed

text \<open>
  Claim C4 as it is stated fails on the score: a candidate that converges with the AIC
  \<open>-inf\<close> is returned, since \<open>-inf < inf\<close> holds, and \<open>-inf\<close> is not finite.
\<close>

theorem optimize_sarima_neg_inf_score_counterexample:
  "candidate_score (sample_env\<lparr>aic := \<lambda>m. NegInf\<rparr>) sample_series ((0, 0, 0), (0, 0, 0, 12))
     = Some NegInf \<and>
   \<not> isfinite NegInf \<and>
   optimize_sarima (sample_env\<lparr>aic := \<lambda>m. NegInf\<rparr>) sample_series [0] [0] [0] [0] [0] [0] 12
     = (Some (0, 0, 0), Some (0, 0, 0, 12))"
  by (simp add: sample_defs optimize_sarima_def try_candidate_def initial_search_state_def)

text \<open>
  Claim C10. The running best starts at \<open>+inf\<close>, and the loop body changes the state
  only when the candidate converged with an AIC strictly below the running best.
  Consequently the order pair that the search returns never has a NaN score, and when
  every converged candidate has a NaN score the search returns \<open>(None, None)\<close>.
\<close>

theorem nan_aic_is_never_selected:
  "best_aic initial_search_state = PosInf \<and>
   (try_candidate L ts s ord (sP', sD', sQ') st \<noteq> st \<longrightarrow>
      (\<exists>results. SARIMAX_fit L ts (Some ord) (Some (sP', sD', sQ', s)) = Inr results \<and>
                 float_lt (aic L results) (best_aic st))) \<and>
   (optimize_sarima L ts p d q sP sD sQ s = (Some ord', Some sord') \<longrightarrow>
      (\<exists>a. candidate_score L ts (ord', sord') = Some a \<and> \<not> isnan a)) \<and>
   ((\<forall>c \<in> set (search_grid p d q sP sD sQ s).
        \<forall>a. candidate_score L ts c = Some a \<longrightarrow> isnan a) \<longrightarrow>
      optimize_sarima L ts p d q sP sD sQ s = (None, None))"
proof -
  let ?cs = "search_grid p d q sP sD sQ s"
  let ?res = "optimize_sarima L ts p d q sP sD sQ s"
  have init: "best_aic initial_search_state = PosInf"
    by (simp add: initial_search_state_def)
  have step: "try_candidate L ts s ord (sP', sD', sQ') st \<noteq> st \<longrightarrow>
      (\<exists>results. SARIMAX_fit L ts (Some ord) (Some (sP', sD', sQ', s)) = Inr results \<and>
                 float_lt (aic L results) (best_aic st))"
    by (auto simp: try_candidate_def Let_def split: sum.splits if_splits)
  have selected: "?res = (Some ord', Some sord') \<longrightarrow>
      (\<exists>a. candidate_score L ts (ord', sord') = Some a \<and> \<not> isnan a)"
  proof
    assume res: "?res = (Some ord', Some sord')"
    with search_result_cases[OF refl, of L ts p d q sP sD sQ s]
    obtain i a where i: "?res = (Some (fst (?cs ! i)), Some (snd (?cs ! i)))"
        "candidate_score L ts (?cs ! i) = Some a" "float_lt a PosInf"
      by auto
    from res i(1) have "?cs ! i = (ord', sord')" by (simp add: prod_eq_iff)
    moreover have "\<not> isnan a" using i(3) by (cases a) simp_all
    ultimately show "\<exists>a. candidate_score L ts (ord', sord') = Some a \<and> \<not> isnan a"
      using i(2) by auto
  qed
  have all_nan: "(\<forall>c \<in> set ?cs. \<forall>a. candidate_score L ts c = Some a \<longrightarrow> isnan a) \<longrightarrow>
      ?res = (None, None)"
  proof
    assume nan: "\<forall>c \<in> set ?cs. \<forall>a. candidate_score L ts c = Some a \<longrightarrow> isnan a"
    have "\<forall>c \<in> set ?cs. \<not> eligible L ts c"
    proof
      fix c assume c: "c \<in> set ?cs"
      show "\<not> eligible L ts c"
      proof
        assume "eligible L ts c"
        then obtain a where a: "candidate_score L ts c = Some a" "float_lt a PosInf"
          by (auto simp: eligible_iff)
        with nan c have "isnan a" by blast
        with a(2) show False by (cases a) simp_all
      qed
    qed
    then show "?res = (None, None)" by (rule search_none_if_no_eligible)
  qed
  from init step selected all_nan show ?thesis by blast
qed

text \<open>
  The theorem at work. A candidate with a lower AIC replaces the running best of 9, one
  with a NaN score does not; on the four candidates with the scores 10, 8, 8, 8 the
  returned pair has the score 8; when every fit converges with a NaN score, the search
  returns \<open>(None, None)\<close> although all four candidates converged.
\<close>

theorem nan_aic_is_never_selected_witness:
  "try_candidate sample_env sample_series 12 (1, 0, 0) (0, 0, 0)
     \<lparr>best_aic = Finite 9, best_order = None, best_seasonal_order = None\<rparr>
     = \<lparr>best_aic = Finite 8, best_order = Some (1, 0, 0),
        best_seasonal_order = Some (0, 0, 0, 12)\<rparr> \<and>
   try_candidate (sample_env\<lparr>aic := \<lambda>m. NaN\<rparr>) sample_series 12 (1, 0, 0) (0, 0, 0)
     \<lparr>best_aic = Finite 9, best_order = None, best_seasonal_order = None\<rparr>
     = \<lparr>best_aic = Finite 9, best_order = None, best_seasonal_order = None\<rparr> \<and>
   optimize_sarima sample_env sample_series [0, 1] [0] [0] [0, 1] [0] [0] 12
     = (Some (0, 0, 0), Some (1, 0, 0, 12)) \<and>
   candidate_score sample_env sample_series ((0, 0, 0), (1, 0, 0, 12)) = Some (Finite 8) \<and>
   map (candidate_score (sample_env\<lparr>aic := \<lambda>m. NaN\<rparr>) sample_series)
       (search_grid [0, 1] [0] [0] [0, 1] [0] [0] 12)
     = [Some NaN, Some NaN, Some NaN, Some NaN] \<and>
   optimize_sarima (sample_env\<lparr>aic := \<lambda>m. NaN\<rparr>) sample_series [0, 1] [0] [0] [0, 1] [0] [0] 12
     = (None, None)"
  using nan_aic_is_never_selected
          [of sample_env sample_series 12 "(1, 0, 0)" 0 0 0
              "\<lparr>best_aic = Finite 9, best_order = None, best_seasonal_order = None\<rparr>"
              "[0, 1]" "[0]" "[0]" "[0, 1]" "[0]" "[0]" "(0, 0, 0)" "(1, 0, 0, 12)"]
        nan_aic_is_never_selected
          [of "sample_env\<lparr>aic := \<lambda>m. NaN\<rparr>" sample_series 12 "(1, 0, 0)" 0 0 0
              "\<lparr>best_aic = Finite 9, best_order = None, best_seasonal_order = None\<rparr>"
              "[0, 1]" "[0]" "[0]" "[0, 1]" "[0]" "[0]" "(0, 0, 0)" "(1, 0, 0, 12)"]
  by (simp add: sample_defs optimize_sarima_def try_candidate_def initial_search_state_def)

section \<open>Dates, frames and the loop\<close>

lemma month_index_next: "month_index (DateOffset_months t 1) = month_index t + 1"
  by (simp add: DateOffset_months_def month_index_def Let_def)

lemma valid_month_next:
  "1 \<le> month t \<Longrightarrow> month t \<le> 12 \<Longrightarrow>
   1 \<le> month (DateOffset_months t 1) \<and> month (DateOffset_months t 1) \<le> 12"
  by (auto simp: DateOffset_months_def Let_def nat_add_distrib)

lemma length_date_range: "length (date_range start n) = n"
  by (induction n arbitrary: start) simp_all

lemma month_index_date_range:
  "i < n \<Longrightarrow> month_index (date_range start n ! i) = month_index start + int i"
proof (induction n arbitrary: start i)
  case 0
  then show ?case by simp
next
  case (Suc n)
  show ?case
  proof (cases i)
    case 0
    then show ?thesis by simp
  next
    case (Suc j)
    with Suc.prems have "j < n" by simp
    from Suc.IH[OF this, of "DateOffset_months start 1"] Suc show ?thesis
      by (simp add: month_index_next)
  qed
qed

lemma valid_month_date_range:
  "1 \<le> month start \<Longrightarrow> month start \<le> 12 \<Longrightarrow> t \<in> set (date_range start n) \<Longrightarrow>
   1 \<le> month t \<and> month t \<le> 12"
proof (induction n arbitrary: start)
  case 0
  then show ?case by simp
next
  case (Suc n)
  from Suc.prems(3) consider "t = start" | "t \<in> set (date_range (DateOffset_months start 1) n)"
    by auto
  then show ?case
  proof cases
    case 1
    with Suc.prems show ?thesis by simp
  next
    case 2
    from valid_month_next[OF Suc.prems(1,2)] Suc.IH[OF _ _ 2] show ?thesis by simp
  qed
qed

lemma distinct_date_range: "distinct (date_range start n)"
proof -
  have "distinct (map month_index (date_range start n))"
    unfolding distinct_conv_nth
    by (auto simp: length_date_range month_index_date_range)
  then show ?thesis by (rule distinct_map[THEN iffD1, THEN conjunct1])
qed

lemma later_fold_Some:
  "fold (\<lambda>i acc. later acc i) idx acc = Some latest \<Longrightarrow>
   (Some latest \<in> set idx \<or> acc = Some latest) \<and>
   (\<forall>t. Some t \<in> set idx \<or> acc = Some t \<longrightarrow> month_index t \<le> month_index latest)"
proof (induction idx arbitrary: acc)
  case Nil
  then show ?case by simp
next
  case (Cons i idx)
  from Cons.prems have f: "fold (\<lambda>i acc. later acc i) idx (later acc i) = Some latest" by simp
  note IH = Cons.IH[OF f]
  show ?case
  proof (cases i)
    case None
    with IH show ?thesis by (auto simp: later_def)
  next
    case (Some t)
    show ?thesis
    proof (cases acc)
      case N: None
      with Some IH show ?thesis by (auto simp: later_def)
    next
      case S: (Some a)
      show ?thesis
      proof (cases "month_index a < month_index t")
        case True
        with Some S have l: "later acc i = Some t" by (simp add: later_def)
        from IH[unfolded l] have "month_index t \<le> month_index latest" by blast
        with IH[unfolded l] True Some S show ?thesis by auto
      next
        case False
        with Some S have l: "later acc i = Some a" by (simp add: later_def)
        from IH[unfolded l] have "month_index a \<le> month_index latest" by blast
        with IH[unfolded l] False Some S show ?thesis by auto
      qed
    qed
  qed
qed

lemma index_max_Some:
  "index_max idx = Some latest \<Longrightarrow>
   Some latest \<in> set idx \<and> (\<forall>t. Some t \<in> set idx \<longrightarrow> month_index t \<le> month_index latest)"
  using later_fold_Some[of idx None latest] by (simp add: index_max_def)

lemma DataFrame_Inr:
  "DataFrame gas dates forecast lower upper = Inr recs \<Longrightarrow>
   length forecast = length dates \<and> length lower = length dates \<and> length upper = length dates \<and>
   length recs = length dates \<and>
   (\<forall>i < length dates. recs ! i = \<lparr>Gas = gas, Date = dates ! i, Forecast = forecast ! i,
                                     Lower_CI = lower ! i, Upper_CI = upper ! i\<rparr>)"
  by (auto simp: DataFrame_def split: if_splits)

lemma DataFrame_columns:
  assumes "DataFrame gas dates forecast lower upper = Inr recs"
  shows "map Date recs = dates" "map Forecast recs = forecast"
        "map Lower_CI recs = lower" "map Upper_CI recs = upper"
        "\<forall>r \<in> set recs. Gas r = gas"
  using DataFrame_Inr[OF assms]
  by (auto simp: list_eq_iff_nth_eq in_set_conv_nth)

lemma forecast_gas_Inr:
  assumes "forecast_gas env frame gas = Inr recs"
  obtains ts results forecast_mean conf_int latest where
    "column frame gas = Inr ts"
    "SARIMAX_fit env ts
       (fst (optimize_sarima env ts range_0_2 range_0_2 range_0_2 range_0_2 range_0_2 range_0_2 s_period))
       (snd (optimize_sarima env ts range_0_2 range_0_2 range_0_2 range_0_2 range_0_2 range_0_2 s_period))
     = Inr results"
    "get_forecast env results forecast_horizon = Inr (forecast_mean, conf_int)"
    "index_max (map fst ts) = Some latest"
    "DataFrame gas (date_range (DateOffset_months latest 1) forecast_horizon) forecast_mean
       (map fst (conf_int None)) (map snd (conf_int None)) = Inr recs"
  using assms
  by (auto simp: forecast_gas_def Let_def split: sum.splits prod.splits option.splits)

lemma forecast_loop_Inr:
  "forecast_loop env gases g = Inr g' \<Longrightarrow>
   df g' = df g \<and>
   (\<exists>fs. all_forecasts g' = all_forecasts g @ fs \<and>
         list_all2 (\<lambda>gas f. forecast_gas env (df g) gas = Inr f) gases fs)"
proof (induction gases arbitrary: g)
  case Nil
  then show ?case by simp
next
  case (Cons gas gases)
  from Cons.prems obtain f where f: "forecast_gas env (df g) gas = Inr f"
    and rest: "forecast_loop env gases (g\<lparr>all_forecasts := all_forecasts g @ [f]\<rparr>) = Inr g'"
    by (auto split: sum.splits)
  from Cons.IH[OF rest] obtain fs where
    "df g' = df g" "all_forecasts g' = all_forecasts g @ [f] @ fs"
    "list_all2 (\<lambda>gas f. forecast_gas env (df g) gas = Inr f) gases fs"
    by auto
  with f show ?case by (intro conjI exI[of _ "f # fs"]) simp_all
qed


lemma to_datetime_Inr_length:
  "to_datetime sp cells = Inr ts \<Longrightarrow> length ts = length cells"
  by (induction sp cells arbitrary: ts rule: to_datetime.induct)
     (auto split: sum.splits option.splits)

lemma to_datetime_unparsed:
  "Some cell \<in> set cells \<Longrightarrow> sp cell = None \<Longrightarrow>
   \<exists>bad. to_datetime sp cells = Inl (ValueError bad) \<and> Some bad \<in> set cells \<and> sp bad = None"
  by (induction sp cells rule: to_datetime.induct)
     (auto split: sum.splits option.splits)

lemma set_date_index_Inr:
  assumes "set_date_index sp raw = Inr indexed"
  shows "''Date'' \<in> set (columns raw)"
    and "columns indexed = removeAll ''Date'' (columns raw)"
    and "to_datetime sp (map fst (rows raw)) = Inr (map fst (rows indexed))"
    and "map snd (rows indexed) = map snd (rows raw)"
proof -
  from assms show d: "''Date'' \<in> set (columns raw)"
    by (auto simp: set_date_index_def split: if_splits)
  with assms obtain dates where dates: "to_datetime sp (map fst (rows raw)) = Inr dates"
    and ix: "indexed = \<lparr>columns = removeAll ''Date'' (columns raw),
                       rows = zip dates (map snd (rows raw))\<rparr>"
    by (auto simp: set_date_index_def split: if_splits sum.splits)
  from to_datetime_Inr_length[OF dates] have len: "length dates = length (rows raw)" by simp
  from ix show "columns indexed = removeAll ''Date'' (columns raw)" by simp
  from ix len dates show "to_datetime sp (map fst (rows raw)) = Inr (map fst (rows indexed))"
    by simp
  from ix len show "map snd (rows indexed) = map snd (rows raw)" by simp
qed

lemma select_columns_Inr:
  "select_columns frame names = Inr sel \<Longrightarrow>
   set names \<subseteq> set (columns frame) \<and> columns sel = names \<and> rows sel = rows frame"
  by (auto simp: select_columns_def filter_empty_conv split: list.splits)

lemma select_columns_Inl:
  "m \<in> set names \<Longrightarrow> m \<notin> set (columns frame) \<Longrightarrow>
   \<exists>missing. select_columns frame names = Inl (KeyError missing) \<and> m \<in> set missing"
proof -
  assume m: "m \<in> set names" "m \<notin> set (columns frame)"
  then have "m \<in> set (filter (\<lambda>c. c \<notin> set (columns frame)) names)" by simp
  then show ?thesis
    by (cases "filter (\<lambda>c. c \<notin> set (columns frame)) names")
       (auto simp: select_columns_def)
qed

lemma complete_row_iff:
  "complete_row names r \<longleftrightarrow> (\<forall>c \<in> set names. \<not> isnan (snd r c))"
  by (simp add: complete_row_def list_all_iff)

lemma prepare_Inr:
  assumes "prepare sp tie raw = Inr cleaned"
  obtains indexed where
    "set_date_index sp raw = Inr indexed"
    "set target_gases \<subseteq> set (columns indexed)"
    "columns cleaned = target_gases"
    "rows cleaned = filter (complete_row target_gases) (rows (sort_index tie indexed))"
proof -
  from assms obtain indexed sel where ix: "set_date_index sp raw = Inr indexed"
    and sel: "select_columns (sort_index tie indexed) target_gases = Inr sel"
    and cl: "cleaned = dropna sel"
    by (auto simp: prepare_def split: sum.splits)
  from select_columns_Inr[OF sel] have
    "set target_gases \<subseteq> set (columns indexed)" "columns sel = target_gases"
    "rows sel = rows (sort_index tie indexed)"
    by (simp_all add: sort_index_def)
  with cl ix that show thesis by (simp add: dropna_def)
qed

lemma set_rows_sort_index: "set (rows (sort_index tie frame)) = set (rows frame)"
  by (simp add: sort_index_def)

section \<open>The sample run\<close>

lemma sample_prepare: "prepare sample_strptime (\<lambda>r. 0) sample_sheet = Inr sample_cleaned"
  by (simp add: prepare_def set_date_index_def sample_sheet_def sample_strptime_def
        sort_index_def index_key_def month_index_def select_columns_def target_gases_def
        dropna_def complete_row_def sample_cleaned_def)

lemma sample_column:
  "gas \<in> set target_gases \<Longrightarrow> column sample_cleaned gas = Inr sample_series"
  by (auto simp: column_def sample_cleaned_def sample_series_def target_gases_def)

lemma sample_search:
  "optimize_sarima sample_env sample_series range_0_2 range_0_2 range_0_2
     range_0_2 range_0_2 range_0_2 s_period = (Some (0, 0, 0), Some (1, 0, 0, 12))"
  by (simp add: optimize_sarima_def itertools_product_def range_0_2_def s_period_def
        try_candidate_def initial_search_state_def sample_env_def sample_fit_def
        orders_or_default_def sample_aic_def sample_series_def)

lemma numeral_6_unfold: "(6::nat) = Suc (Suc (Suc (Suc (Suc (Suc 0)))))"
  by simp

lemma sample_forecast_gas:
  "gas \<in> set target_gases \<Longrightarrow> forecast_gas sample_env sample_cleaned gas = Inr (sample_forecast gas)"
  unfolding forecast_gas_def
  by (simp add: sample_column sample_search)
     (simp add: sample_env_def sample_fit_def orders_or_default_def sample_series_def sample_get_forecast_def
        forecast_horizon_def index_max_def later_def month_index_def DateOffset_months_def
        DataFrame_def sample_forecast_def numeral_6_unfold upt_rec)

lemma filter_other_gas:
  "\<forall>r \<in> set f. Gas r = a \<Longrightarrow> a \<noteq> b \<Longrightarrow> filter (\<lambda>r. Gas r = b) f = []"
  by (auto simp: filter_empty_conv)

lemma filter_same_gas:
  "\<forall>r \<in> set f. Gas r = a \<Longrightarrow> filter (\<lambda>r. Gas r = a) f = f"
  by (auto simp: filter_id_conv)

lemma filter_concat_absent_gas:
  "list_all2 (\<lambda>gas f. \<forall>r \<in> set f. Gas r = gas) gases fs \<Longrightarrow> a \<notin> set gases \<Longrightarrow>
   filter (\<lambda>r. Gas r = a) (concat fs) = []"
proof (induction rule: list_all2_induct)
  case Nil
  then show ?case by simp
next
  case (Cons gas gases f fs)
  then show ?case by (auto simp: filter_empty_conv)
qed

lemma filter_concat_by_gas:
  "list_all2 (\<lambda>gas f. \<forall>r \<in> set f. Gas r = gas) gases fs \<Longrightarrow> distinct gases \<Longrightarrow>
   i < length gases \<Longrightarrow> filter (\<lambda>r. Gas r = gases ! i) (concat fs) = fs ! i"
proof (induction arbitrary: i rule: list_all2_induct)
  case Nil
  then show ?case by simp
next
  case (Cons gas gases f fs)
  show ?case
  proof (cases i)
    case 0
    with Cons show ?thesis
      by (simp add: filter_same_gas filter_concat_absent_gas)
  next
    case (Suc j)
    with Cons.prems have j: "j < length gases" and ne: "gas \<noteq> gases ! j" by auto
    from Cons.IH[OF _ j] Cons.prems(1) Cons.hyps(1) Suc ne show ?thesis
      by (simp add: filter_other_gas)
  qed
qed

lemma forecast_gas_records:
  assumes "forecast_gas env frame gas = Inr recs"
  shows "length recs = forecast_horizon" "distinct (map Date recs)" "\<forall>r \<in> set recs. Gas r = gas"
proof -
  have "length recs = forecast_horizon \<and> distinct (map Date recs) \<and>
        (\<forall>r \<in> set recs. Gas r = gas)"
  proof (cases rule: forecast_gas_Inr[OF assms])
    case (1 ts results forecast_mean conf_int latest)
    note D = 1(5)
    from DataFrame_Inr[OF D] have "length recs = forecast_horizon"
      by (simp add: length_date_range)
    moreover from DataFrame_columns(1)[OF D] have "distinct (map Date recs)"
      by (simp add: distinct_date_range)
    moreover from DataFrame_columns(5)[OF D] have "\<forall>r \<in> set recs. Gas r = gas" by simp
    ultimately show ?thesis by simp
  qed
  then show "length recs = forecast_horizon" "distinct (map Date recs)"
    "\<forall>r \<in> set recs. Gas r = gas"
    by simp_all
qed

lemma run_csv_Some:
  assumes "csv_file (run env) = Some out"
  obtains cleaned fs where
    "list_all2 (\<lambda>gas f. forecast_gas env cleaned gas = Inr f) target_gases fs"
    "out = concat fs"
proof -
  from assms obtain raw cleaned g where
    "forecast_loop env target_gases \<lparr>df = cleaned, all_forecasts = []\<rparr> = Inr g"
    "out = concat (all_forecasts g)"
    by (auto simp: run_def Let_def split: sum.splits)
  with forecast_loop_Inr[of env target_gases "\<lparr>df = cleaned, all_forecasts = []\<rparr>" g] that
  show thesis by auto
qed

lemma distinct_target_gases: "distinct target_gases"
  by (simp add: target_gases_def)

lemma length_concat_all:
  "\<forall>f \<in> set fs. length f = n \<Longrightarrow> length (concat fs) = length fs * n"
  by (induction fs) auto

lemma sample_loop:
  "forecast_loop sample_env target_gases \<lparr>df = sample_cleaned, all_forecasts = []\<rparr> =
     Inr \<lparr>df = sample_cleaned, all_forecasts = map sample_forecast target_gases\<rparr>"
  using sample_forecast_gas by (simp add: target_gases_def)

lemma sample_env_fields:
  "read_csv sample_env = Inr sample_sheet" "strptime sample_env = sample_strptime"
  "tie_rank sample_env = (\<lambda>r. 0)"
  "logo_file sample_env = False" "SARIMAX_fit sample_env = sample_fit"
  "aic sample_env = sample_aic" "get_forecast sample_env = sample_get_forecast"
  by (simp_all add: sample_env_def)

lemma sample_run_csv:
  "csv_file (run sample_env) = Some (concat (map sample_forecast target_gases))"
  by (simp add: run_def sample_env_fields sample_prepare sample_loop Let_def)

lemma sample_target_member:
  "''CO2_seasonal'' \<in> set target_gases" "''CH4_seasonal'' \<in> set target_gases"
  by (simp_all add: target_gases_def)

lemma run_load_error:
  "read_csv env = Inl e \<Longrightarrow>
   run env = \<lparr>ending = Exit_after_load_error e, csv_file = None, html_file = None\<rparr>"
  by (simp add: run_def)

lemma run_prepare_error:
  "read_csv env = Inr raw \<Longrightarrow> prepare (strptime env) (tie_rank env) raw = Inl e \<Longrightarrow>
   run env = \<lparr>ending = Uncaught e, csv_file = None, html_file = None\<rparr>"
  by (simp add: run_def)


lemma prepare_no_date_column:
  "''Date'' \<notin> set (columns raw) \<Longrightarrow> prepare sp tie raw = Inl (KeyError [''Date''])"
  by (simp add: prepare_def set_date_index_def)

lemma prepare_unparsed_date:
  assumes "''Date'' \<in> set (columns raw)" "Some cell \<in> set (map fst (rows raw))" "sp cell = None"
  shows "\<exists>bad. prepare sp tie raw = Inl (ValueError bad) \<and> sp bad = None"
proof -
  from to_datetime_unparsed[of cell "map fst (rows raw)" sp, OF assms(2,3)] obtain bad where
    bad: "to_datetime sp (map fst (rows raw)) = Inl (ValueError bad)" and n: "sp bad = None"
    by auto
  from bad assms(1) have "prepare sp tie raw = Inl (ValueError bad)"
    by (simp add: prepare_def set_date_index_def)
  with n show ?thesis by auto
qed

lemma prepare_missing_column:
  assumes "set_date_index sp raw = Inr indexed" "gas \<in> set target_gases"
    "gas \<notin> set (columns indexed)"
  shows "\<exists>missing. prepare sp tie raw = Inl (KeyError missing) \<and> gas \<in> set missing"
proof -
  have "gas \<notin> set (columns (sort_index tie indexed))" using assms(3) by (simp add: sort_index_def)
  from select_columns_Inl[OF assms(2) this] obtain missing where
    m: "select_columns (sort_index tie indexed) target_gases = Inl (KeyError missing)"
    and g: "gas \<in> set missing"
    by auto
  from m assms(1) have "prepare sp tie raw = Inl (KeyError missing)"
    by (simp add: prepare_def)
  with g show ?thesis by auto
qed




section \<open>Runs that fail\<close>

lemma sample_results:
  "SARIMAX_fit sample_env sample_series
     (fst (optimize_sarima sample_env sample_series range_0_2 range_0_2 range_0_2
             range_0_2 range_0_2 range_0_2 s_period))
     (snd (optimize_sarima sample_env sample_series range_0_2 range_0_2 range_0_2
             range_0_2 range_0_2 range_0_2 s_period)) = Inr ((0, 0, 0), (1, 0, 0, 12))"
  by (simp add: sample_search) (simp add: sample_env_fields sample_fit_def orders_or_default_def)

lemma sample_get_forecast_6:
  "sample_get_forecast m forecast_horizon =
     Inr ([Finite 0, Finite 1, Finite 2, Finite 3, Finite 4, Finite 5],
          \<lambda>alpha. [(Finite (- 1), Finite 1), (Finite 0, Finite 2), (Finite 1, Finite 3),
                   (Finite 2, Finite 4), (Finite 3, Finite 5), (Finite 4, Finite 6)])"
  by (simp add: sample_get_forecast_def forecast_horizon_def numeral_6_unfold upt_rec)

lemma sample_dates:
  "index_max (map fst sample_series) = Some \<lparr>year = 2024, month = 12\<rparr>"
  "date_range (DateOffset_months \<lparr>year = 2024, month = 12\<rparr> 1) forecast_horizon =
     [\<lparr>year = 2025, month = 1\<rparr>, \<lparr>year = 2025, month = 2\<rparr>, \<lparr>year = 2025, month = 3\<rparr>,
      \<lparr>year = 2025, month = 4\<rparr>, \<lparr>year = 2025, month = 5\<rparr>, \<lparr>year = 2025, month = 6\<rparr>]"
  by (simp_all add: sample_series_def index_max_def later_def month_index_def
        DateOffset_months_def forecast_horizon_def numeral_6_unfold)






lemma forecast_gas_after_accepted_absent_orders:
  assumes "column frame gas = Inr ts"
    and "optimize_sarima env ts range_0_2 range_0_2 range_0_2 range_0_2 range_0_2 range_0_2 s_period
           = (None, None)"
    and "SARIMAX_fit env ts None None = Inr results"
  shows "forecast_gas env frame gas =
     (case get_forecast env results forecast_horizon of
        Inl e \<Rightarrow> Inl e
      | Inr fc \<Rightarrow>
          (case index_max (map fst ts) of
             None \<Rightarrow> Inl (ValueError ''Neither `start` nor `end` can be NaT'')
           | Some latest \<Rightarrow>
               DataFrame gas (date_range (DateOffset_months latest 1) forecast_horizon) (fst fc)
                 (map fst (snd fc None)) (map snd (snd fc None))))"
  using assms by (simp add: forecast_gas_def Let_def split: sum.splits prod.splits option.splits)







lemma lenient_env_fields:
  "read_csv lenient_env = Inr sample_sheet" "strptime lenient_env = sample_strptime"
  "tie_rank lenient_env = (\<lambda>r. 0)" "SARIMAX_fit lenient_env = lenient_fit"
  "get_forecast lenient_env = sample_get_forecast" "logo_file lenient_env = False"
  by (simp_all add: lenient_env_def sample_env_def)



lemma lenient_prepare:
  "prepare (strptime lenient_env) (tie_rank lenient_env) sample_sheet = Inr sample_cleaned"
  by (simp add: lenient_env_fields sample_prepare)













lemma nan_env_fields:
  "read_csv nan_env = Inr sample_sheet" "strptime nan_env = sample_strptime"
  "tie_rank nan_env = (\<lambda>r. 0)" "SARIMAX_fit nan_env = sample_fit"
  "get_forecast nan_env = nan_get_forecast" "logo_file nan_env = False"
  by (simp_all add: nan_env_def sample_env_def)

lemma nan_search:
  "optimize_sarima nan_env sample_series range_0_2 range_0_2 range_0_2
     range_0_2 range_0_2 range_0_2 s_period = (None, None)"
  by (simp add: optimize_sarima_def itertools_product_def range_0_2_def s_period_def
        try_candidate_def initial_search_state_def nan_env_def sample_env_def sample_fit_def
        orders_or_default_def)

lemma nan_absent:
  "SARIMAX_fit nan_env sample_series None None = Inr ((0, 0, 0), (0, 0, 0, 0))"
  by (simp add: nan_env_fields sample_fit_def orders_or_default_def)

lemma nan_forecast_gas:
  assumes "gas \<in> set target_gases"
  shows "forecast_gas nan_env sample_cleaned gas = Inr (nan_forecast gas)"
  using forecast_gas_after_accepted_absent_orders
          [OF sample_column[OF assms] nan_search nan_absent]
  by (simp add: nan_env_fields nan_get_forecast_def sample_dates)
     (simp add: DataFrame_def nan_forecast_def forecast_horizon_def numeral_6_unfold upt_rec)

lemma nan_loop:
  "forecast_loop nan_env target_gases \<lparr>df = sample_cleaned, all_forecasts = []\<rparr> =
     Inr \<lparr>df = sample_cleaned, all_forecasts = map nan_forecast target_gases\<rparr>"
  using nan_forecast_gas by (simp add: target_gases_def)

lemma nan_run:
  "ending (run nan_env) = Finished"
  "csv_file (run nan_env) = Some (concat (map nan_forecast target_gases))"
  by (simp_all add: run_def nan_env_fields sample_prepare nan_loop Let_def)

section \<open>Claims about the data and the forecasts\<close>

text \<open>
  Claim C5. When the preparation succeeds, every target gas is a column of the cleaned
  frame and its series has the index of the frame, so that the four series have the same
  dates in the same order; no value of a target gas is missing in a remaining row; a row
  of the dated frame remains exactly when none of its four target values is missing. The
  loop over the gases leaves the frame \<open>df\<close> as it is.
\<close>

theorem cleaned_series_share_their_dates:
  "(prepare sp tie raw = Inr cleaned \<longrightarrow>
      (\<forall>gas \<in> set target_gases.
          column cleaned gas = Inr (map (\<lambda>r. (fst r, snd r gas)) (rows cleaned)) \<and>
          (\<forall>ts. column cleaned gas = Inr ts \<longrightarrow> map fst ts = map fst (rows cleaned))) \<and>
      (\<forall>r \<in> set (rows cleaned). \<forall>gas \<in> set target_gases. \<not> isnan (snd r gas)) \<and>
      (\<exists>indexed. set_date_index sp raw = Inr indexed \<and>
          (\<forall>r \<in> set (rows indexed).
              r \<in> set (rows cleaned) \<longleftrightarrow> (\<forall>gas \<in> set target_gases. \<not> isnan (snd r gas))))) \<and>
   (forecast_loop env gases g = Inr g' \<longrightarrow> df g' = df g)"
proof (intro conjI impI)
  assume p: "prepare sp tie raw = Inr cleaned"
  from prepare_Inr[OF p] obtain indexed where ix: "set_date_index sp raw = Inr indexed"
    and cols: "columns cleaned = target_gases"
    and rws: "rows cleaned = filter (complete_row target_gases) (rows (sort_index tie indexed))"
    by blast
  show "\<forall>gas \<in> set target_gases.
          column cleaned gas = Inr (map (\<lambda>r. (fst r, snd r gas)) (rows cleaned)) \<and>
          (\<forall>ts. column cleaned gas = Inr ts \<longrightarrow> map fst ts = map fst (rows cleaned))"
    using cols by (auto simp: column_def comp_def)
  show "\<forall>r \<in> set (rows cleaned). \<forall>gas \<in> set target_gases. \<not> isnan (snd r gas)"
    using rws by (auto simp: complete_row_iff)
  have "\<forall>r \<in> set (rows indexed).
          r \<in> set (rows cleaned) \<longleftrightarrow> (\<forall>gas \<in> set target_gases. \<not> isnan (snd r gas))"
    using rws by (auto simp: complete_row_iff set_rows_sort_index)
  with ix show "\<exists>indexed. set_date_index sp raw = Inr indexed \<and>
          (\<forall>r \<in> set (rows indexed).
              r \<in> set (rows cleaned) \<longleftrightarrow> (\<forall>gas \<in> set target_gases. \<not> isnan (snd r gas)))"
    by blast
next
  assume "forecast_loop env gases g = Inr g'"
  then show "df g' = df g" by (simp add: forecast_loop_Inr)
qed

text \<open>
  The theorem on the sample sheet: the November row, whose methane value is missing, is
  dropped for every gas, the series of carbon dioxide and methane have the two remaining
  dates, and the loop returns the frame it was given.
\<close>

theorem cleaned_series_share_their_dates_witness:
  "prepare sample_strptime (\<lambda>r. 0) sample_sheet = Inr sample_cleaned \<and>
   column sample_cleaned ''CO2_seasonal'' =
     Inr (map (\<lambda>r. (fst r, snd r ''CO2_seasonal'')) (rows sample_cleaned)) \<and>
   column sample_cleaned ''CH4_seasonal'' =
     Inr (map (\<lambda>r. (fst r, snd r ''CH4_seasonal'')) (rows sample_cleaned)) \<and>
   map fst (rows sample_cleaned) =
     [Some \<lparr>year = 2024, month = 10\<rparr>, Some \<lparr>year = 2024, month = 12\<rparr>] \<and>
   forecast_loop sample_env target_gases \<lparr>df = sample_cleaned, all_forecasts = []\<rparr> =
     Inr \<lparr>df = sample_cleaned, all_forecasts = map sample_forecast target_gases\<rparr> \<and>
   df \<lparr>df = sample_cleaned, all_forecasts = map sample_forecast target_gases\<rparr> =
     df \<lparr>df = sample_cleaned, all_forecasts = []\<rparr>"
proof -
  note t = cleaned_series_share_their_dates
     [of sample_strptime "\<lambda>r. 0" sample_sheet sample_cleaned sample_env target_gases
         "\<lparr>df = sample_cleaned, all_forecasts = []\<rparr>"
         "\<lparr>df = sample_cleaned, all_forecasts = map sample_forecast target_gases\<rparr>"]
  note p = t[THEN conjunct1, THEN mp, OF sample_prepare]
  note co2 = p[THEN conjunct1, THEN bspec, OF sample_target_member(1), THEN conjunct1]
  note ch4 = p[THEN conjunct1, THEN bspec, OF sample_target_member(2), THEN conjunct1]
  note kept = t[THEN conjunct2, THEN mp, OF sample_loop]
  have idx: "map fst (rows sample_cleaned) =
     [Some \<lparr>year = 2024, month = 10\<rparr>, Some \<lparr>year = 2024, month = 12\<rparr>]"
    by (simp add: sample_cleaned_def)
  show ?thesis
    apply (intro conjI)
         apply (rule sample_prepare)
        apply (rule co2)
       apply (rule ch4)
      apply (rule idx)
     apply (rule sample_loop)
    apply (rule kept)
    done
qed

text \<open>
  Claim C6. The horizon is 6. The forecast of a gas, when the body of the loop produces
  one, has exactly 6 records, all of that gas, on 6 different dates, each record with one
  forecast, one lower and one upper bound. When the run writes the CSV file, it holds 24
  records, 6 for each of the four gases.
\<close>

theorem six_records_for_every_forecast_gas:
  "forecast_horizon = 6 \<and>
   (forecast_gas env frame gas = Inr recs \<longrightarrow>
      length recs = 6 \<and> distinct (map Date recs) \<and> (\<forall>r \<in> set recs. Gas r = gas)) \<and>
   (csv_file (run env) = Some out \<longrightarrow>
      length out = 24 \<and>
      (\<forall>gas \<in> set target_gases.
          length (filter (\<lambda>r. Gas r = gas) out) = 6 \<and>
          distinct (map Date (filter (\<lambda>r. Gas r = gas) out))))"
proof -
  have horizon: "forecast_horizon = 6" by (simp add: forecast_horizon_def)
  have one: "length recs = 6 \<and> distinct (map Date recs) \<and> (\<forall>r \<in> set recs. Gas r = gas)"
    if a: "forecast_gas env frame gas = Inr recs"
    using forecast_gas_records[OF a] by (simp add: forecast_horizon_def)
  have "length out = 24 \<and>
      (\<forall>gas \<in> set target_gases.
          length (filter (\<lambda>r. Gas r = gas) out) = 6 \<and>
          distinct (map Date (filter (\<lambda>r. Gas r = gas) out)))"
    if a: "csv_file (run env) = Some out"
  proof
  from run_csv_Some[OF a] obtain cleaned fs where
    fs: "list_all2 (\<lambda>gas f. forecast_gas env cleaned gas = Inr f) target_gases fs"
    and out: "out = concat fs"
    by blast
  have len: "length fs = length target_gases"
    using fs by (simp add: list_all2_lengthD)
  have each: "\<forall>i < length target_gases. forecast_gas env cleaned (target_gases ! i) = Inr (fs ! i)"
    using fs by (simp add: list_all2_conv_all_nth)
  have gasses: "list_all2 (\<lambda>gas f. \<forall>r \<in> set f. Gas r = gas) target_gases fs"
    using fs by (rule list_all2_mono) (rule forecast_gas_records(3))
  have len6: "length f = 6" and dist: "distinct (map Date f)"
    if "forecast_gas env cleaned gas' = Inr f" for gas' f
    using forecast_gas_records(1,2)[OF that] by (simp_all add: forecast_horizon_def)
  have "\<forall>f \<in> set fs. length f = 6"
  proof
    fix f assume "f \<in> set fs"
    then obtain i where i: "i < length fs" "fs ! i = f" by (auto simp: in_set_conv_nth)
    with each len have "forecast_gas env cleaned (target_gases ! i) = Inr f" by simp
    then show "length f = 6" by (rule len6)
  qed
  then have "length (concat fs) = length fs * 6" by (rule length_concat_all)
  then show "length out = 24"
    using len out by (simp add: target_gases_def)
  show "\<forall>gas \<in> set target_gases.
          length (filter (\<lambda>r. Gas r = gas) out) = 6 \<and>
          distinct (map Date (filter (\<lambda>r. Gas r = gas) out))"
  proof
    fix gas assume "gas \<in> set target_gases"
    then obtain i where i: "i < length target_gases" "target_gases ! i = gas"
      by (auto simp: in_set_conv_nth)
    from filter_concat_by_gas[OF gasses distinct_target_gases i(1)] i(2) out
    have "filter (\<lambda>r. Gas r = gas) out = fs ! i" by simp
    moreover from each i(1) have "forecast_gas env cleaned (target_gases ! i) = Inr (fs ! i)"
      by simp
    ultimately show "length (filter (\<lambda>r. Gas r = gas) out) = 6 \<and>
          distinct (map Date (filter (\<lambda>r. Gas r = gas) out))"
      using len6 dist by simp
  qed
  qed
  with horizon one show ?thesis by blast
qed

text \<open>The forecast of methane on the sample, and the file of the sample run.\<close>

theorem six_records_for_every_forecast_gas_witness:
  "forecast_gas sample_env sample_cleaned ''CH4_seasonal'' = Inr (sample_forecast ''CH4_seasonal'') \<and>
   length (sample_forecast ''CH4_seasonal'') = 6 \<and>
   distinct (map Date (sample_forecast ''CH4_seasonal'')) \<and>
   csv_file (run sample_env) = Some (concat (map sample_forecast target_gases)) \<and>
   length (concat (map sample_forecast target_gases)) = 24 \<and>
   length (filter (\<lambda>r. Gas r = ''CH4_seasonal'') (concat (map sample_forecast target_gases))) = 6"
proof -
  note t = six_records_for_every_forecast_gas
          [of sample_env sample_cleaned "''CH4_seasonal''" "sample_forecast ''CH4_seasonal''"
              "concat (map sample_forecast target_gases)"]
  have fg: "forecast_gas sample_env sample_cleaned ''CH4_seasonal'' =
              Inr (sample_forecast ''CH4_seasonal'')"
    by (rule sample_forecast_gas[OF sample_target_member(2)])
  note csv = sample_run_csv
  note one = t[THEN conjunct2, THEN conjunct1, THEN mp, OF fg]
  note all = t[THEN conjunct2, THEN conjunct2, THEN mp, OF csv]
  note ch4 = all[THEN conjunct2, THEN bspec, OF sample_target_member(2)]
  show ?thesis
    apply (intro conjI)
         apply (rule fg)
        apply (rule one[THEN conjunct1])
       apply (rule one[THEN conjunct2, THEN conjunct1])
      apply (rule csv)
     apply (rule all[THEN conjunct1])
    apply (rule ch4[THEN conjunct1])
    done
qed

text \<open>
  Claim C7. The dates of the forecast of a gas are the 6 month starts that follow the
  latest date of the series of that gas: the first one is one month after it (January of
  the next year after a December, the next month of the same year otherwise), each
  further one is one month after its predecessor, and all are valid months when the
  latest date is.
\<close>

theorem forecast_dates_follow_the_last_month:
  "forecast_gas env frame gas = Inr recs \<longrightarrow>
     (\<exists>ts latest.
        column frame gas = Inr ts \<and> index_max (map fst ts) = Some latest \<and>
        Some latest \<in> set (map fst ts) \<and>
        (\<forall>t. Some t \<in> set (map fst ts) \<longrightarrow> month_index t \<le> month_index latest) \<and>
        map Date recs = date_range (DateOffset_months latest 1) 6 \<and>
        Date (recs ! 0) = DateOffset_months latest 1 \<and>
        (month latest = 12 \<longrightarrow> Date (recs ! 0) = \<lparr>year = year latest + 1, month = 1\<rparr>) \<and>
        (month latest < 12 \<longrightarrow>
           Date (recs ! 0) = \<lparr>year = year latest, month = month latest + 1\<rparr>) \<and>
        (\<forall>i < 6. month_index (Date (recs ! i)) = month_index latest + 1 + int i) \<and>
        (1 \<le> month latest \<and> month latest \<le> 12 \<longrightarrow>
           (\<forall>r \<in> set recs. 1 \<le> month (Date r) \<and> month (Date r) \<le> 12)))"
proof
  assume a: "forecast_gas env frame gas = Inr recs"
  show "\<exists>ts latest.
        column frame gas = Inr ts \<and> index_max (map fst ts) = Some latest \<and>
        Some latest \<in> set (map fst ts) \<and>
        (\<forall>t. Some t \<in> set (map fst ts) \<longrightarrow> month_index t \<le> month_index latest) \<and>
        map Date recs = date_range (DateOffset_months latest 1) 6 \<and>
        Date (recs ! 0) = DateOffset_months latest 1 \<and>
        (month latest = 12 \<longrightarrow> Date (recs ! 0) = \<lparr>year = year latest + 1, month = 1\<rparr>) \<and>
        (month latest < 12 \<longrightarrow>
           Date (recs ! 0) = \<lparr>year = year latest, month = month latest + 1\<rparr>) \<and>
        (\<forall>i < 6. month_index (Date (recs ! i)) = month_index latest + 1 + int i) \<and>
        (1 \<le> month latest \<and> month latest \<le> 12 \<longrightarrow>
           (\<forall>r \<in> set recs. 1 \<le> month (Date r) \<and> month (Date r) \<le> 12))"
  proof (cases rule: forecast_gas_Inr[OF a])
  case (1 ts results forecast_mean forecast_ci latest)
  note ts = 1(1) and mx = 1(4) and D = 1(5)
  define start where "start = DateOffset_months latest 1"
  have dates: "map Date recs = date_range start 6"
    using DataFrame_columns(1)[OF D] by (simp add: forecast_horizon_def start_def)
  have len: "length recs = 6"
    using arg_cong[OF dates, of length] by (simp add: length_date_range)
  have nth: "Date (recs ! i) = date_range start 6 ! i" if "i < 6" for i
  proof -
    have "map Date recs ! i = date_range start 6 ! i" by (simp only: dates)
    with that len show ?thesis by simp
  qed
  have first: "Date (recs ! 0) = start"
    using nth[of 0] by (simp add: numeral_6_unfold)
  have dec: "month latest = 12 \<longrightarrow> Date (recs ! 0) = \<lparr>year = year latest + 1, month = 1\<rparr>"
    unfolding first start_def by (simp add: DateOffset_months_def Let_def)
  have other: "month latest < 12 \<longrightarrow>
      Date (recs ! 0) = \<lparr>year = year latest, month = month latest + 1\<rparr>"
    unfolding first start_def by (auto simp: DateOffset_months_def Let_def nat_add_distrib)
  have steps: "\<forall>i < 6. month_index (Date (recs ! i)) = month_index latest + 1 + int i"
  proof (intro allI impI)
    fix i :: nat assume i: "i < 6"
    have "month_index (Date (recs ! i)) = month_index start + int i"
      unfolding nth[OF i] using i by (rule month_index_date_range)
    then show "month_index (Date (recs ! i)) = month_index latest + 1 + int i"
      by (simp add: start_def month_index_next)
  qed
  have valid: "1 \<le> month latest \<and> month latest \<le> 12 \<longrightarrow>
           (\<forall>r \<in> set recs. 1 \<le> month (Date r) \<and> month (Date r) \<le> 12)"
  proof (intro impI ballI)
    fix r assume v: "1 \<le> month latest \<and> month latest \<le> 12" and r: "r \<in> set recs"
    from r have "Date r \<in> set (map Date recs)" by simp
    then have mem: "Date r \<in> set (date_range start 6)" by (simp only: dates)
    from v have s1: "1 \<le> month start" and s2: "month start \<le> 12"
      using valid_month_next[of latest] by (simp_all add: start_def)
    from s1 s2 mem show "1 \<le> month (Date r) \<and> month (Date r) \<le> 12"
      by (rule valid_month_date_range)
  qed
  note mxs = index_max_Some[OF mx]
  have "column frame gas = Inr ts \<and> index_max (map fst ts) = Some latest \<and>
        Some latest \<in> set (map fst ts) \<and>
        (\<forall>t. Some t \<in> set (map fst ts) \<longrightarrow> month_index t \<le> month_index latest) \<and>
        map Date recs = date_range (DateOffset_months latest 1) 6 \<and>
        Date (recs ! 0) = DateOffset_months latest 1 \<and>
        (month latest = 12 \<longrightarrow> Date (recs ! 0) = \<lparr>year = year latest + 1, month = 1\<rparr>) \<and>
        (month latest < 12 \<longrightarrow>
           Date (recs ! 0) = \<lparr>year = year latest, month = month latest + 1\<rparr>) \<and>
        (\<forall>i < 6. month_index (Date (recs ! i)) = month_index latest + 1 + int i) \<and>
        (1 \<le> month latest \<and> month latest \<le> 12 \<longrightarrow>
           (\<forall>r \<in> set recs. 1 \<le> month (Date r) \<and> month (Date r) \<le> 12))"
    apply (intro conjI)
             apply (rule ts)
            apply (rule mx)
           apply (rule mxs[THEN conjunct1])
          apply (rule mxs[THEN conjunct2])
         apply (rule dates[unfolded start_def])
        apply (rule first[unfolded start_def])
       apply (rule dec)
      apply (rule other)
     apply (rule steps)
    apply (rule valid)
    done
  then show ?thesis
    by (intro exI)
  qed
qed

text \<open>
  On the sample the latest date is December 2024: the forecast dates are the 6 months
  from January 2025 on.
\<close>

theorem forecast_dates_follow_the_last_month_witness:
  "forecast_gas sample_env sample_cleaned ''CO2_seasonal'' = Inr (sample_forecast ''CO2_seasonal'') \<and>
   column sample_cleaned ''CO2_seasonal'' = Inr sample_series \<and>
   index_max (map fst sample_series) = Some \<lparr>year = 2024, month = 12\<rparr> \<and>
   map Date (sample_forecast ''CO2_seasonal'') =
     date_range (DateOffset_months \<lparr>year = 2024, month = 12\<rparr> 1) 6 \<and>
   Date (sample_forecast ''CO2_seasonal'' ! 0) = \<lparr>year = 2025, month = 1\<rparr> \<and>
   month_index (Date (sample_forecast ''CO2_seasonal'' ! 5)) =
     month_index \<lparr>year = 2024, month = 12\<rparr> + 1 + int 5"
proof -
  have fg: "forecast_gas sample_env sample_cleaned ''CO2_seasonal'' =
              Inr (sample_forecast ''CO2_seasonal'')"
    by (rule sample_forecast_gas[OF sample_target_member(1)])
  have col: "column sample_cleaned ''CO2_seasonal'' = Inr sample_series"
    by (rule sample_column[OF sample_target_member(1)])
  have mx: "index_max (map fst sample_series) = Some \<lparr>year = 2024, month = 12\<rparr>"
    by (simp add: sample_series_def index_max_def later_def month_index_def)
  note t = forecast_dates_follow_the_last_month
     [of sample_env sample_cleaned "''CO2_seasonal''" "sample_forecast ''CO2_seasonal''",
      THEN mp, OF fg]
  from t show ?thesis
  proof (elim exE conjE)
    fix ts latest
    assume c: "column sample_cleaned ''CO2_seasonal'' = Inr ts"
      and m: "index_max (map fst ts) = Some latest"
      and dates: "map Date (sample_forecast ''CO2_seasonal'') =
                    date_range (DateOffset_months latest 1) 6"
      and dec: "month latest = 12 \<longrightarrow>
                  Date (sample_forecast ''CO2_seasonal'' ! 0) = \<lparr>year = year latest + 1, month = 1\<rparr>"
      and steps: "\<forall>i<6. month_index (Date (sample_forecast ''CO2_seasonal'' ! i)) =
                    month_index latest + 1 + int i"
    from c col have ts: "ts = sample_series" by simp
    from m mx have latest: "latest = \<lparr>year = 2024, month = 12\<rparr>" by (simp add: ts)
    have five: "(5::nat) < 6" by simp
    show ?thesis
      apply (intro conjI)
           apply (rule fg)
          apply (rule col)
         apply (rule mx)
        apply (rule dates[unfolded latest])
       apply (insert dec[unfolded latest], simp)[1]
      apply (rule steps[unfolded latest, THEN spec, THEN mp, OF five])
      done
  qed
qed

text \<open>
  Claim C8, as amended. The three numeric columns of a forecast are the library's columns
  as they are: the forecast column is \<open>predicted_mean\<close>, the lower and upper bounds are
  the first and second column of \<open>conf_int()\<close>, called without a level (so at the
  library's default level), row by row, with no check. Hence a record has lower bound
  \<open>\<le>\<close> forecast \<open>\<le>\<close> upper bound exactly when the library's row has.
\<close>

theorem records_carry_the_library_interval:
  "forecast_gas env frame gas = Inr recs \<longrightarrow>
     (\<exists>ts results forecast_mean conf_int.
        column frame gas = Inr ts \<and>
        SARIMAX_fit env ts
          (fst (optimize_sarima env ts range_0_2 range_0_2 range_0_2
                  range_0_2 range_0_2 range_0_2 s_period))
          (snd (optimize_sarima env ts range_0_2 range_0_2 range_0_2
                  range_0_2 range_0_2 range_0_2 s_period)) = Inr results \<and>
        get_forecast env results forecast_horizon = Inr (forecast_mean, conf_int) \<and>
        map Forecast recs = forecast_mean \<and>
        map Lower_CI recs = map fst (conf_int None) \<and>
        map Upper_CI recs = map snd (conf_int None) \<and>
        (\<forall>i < 6.
           (float_le (Lower_CI (recs ! i)) (Forecast (recs ! i)) \<and>
            float_le (Forecast (recs ! i)) (Upper_CI (recs ! i))) =
           (float_le (fst (conf_int None ! i)) (forecast_mean ! i) \<and>
            float_le (forecast_mean ! i) (snd (conf_int None ! i)))))"
proof
  assume a: "forecast_gas env frame gas = Inr recs"
  show "\<exists>ts results forecast_mean conf_int.
        column frame gas = Inr ts \<and>
        SARIMAX_fit env ts
          (fst (optimize_sarima env ts range_0_2 range_0_2 range_0_2
                  range_0_2 range_0_2 range_0_2 s_period))
          (snd (optimize_sarima env ts range_0_2 range_0_2 range_0_2
                  range_0_2 range_0_2 range_0_2 s_period)) = Inr results \<and>
        get_forecast env results forecast_horizon = Inr (forecast_mean, conf_int) \<and>
        map Forecast recs = forecast_mean \<and>
        map Lower_CI recs = map fst (conf_int None) \<and>
        map Upper_CI recs = map snd (conf_int None) \<and>
        (\<forall>i < 6.
           (float_le (Lower_CI (recs ! i)) (Forecast (recs ! i)) \<and>
            float_le (Forecast (recs ! i)) (Upper_CI (recs ! i))) =
           (float_le (fst (conf_int None ! i)) (forecast_mean ! i) \<and>
            float_le (forecast_mean ! i) (snd (conf_int None ! i))))"
  proof (cases rule: forecast_gas_Inr[OF a])
    case (1 ts results forecast_mean conf_int latest)
    note D = 1(5)
    note cols = DataFrame_columns[OF D]
    have len: "length recs = 6"
      using DataFrame_Inr[OF D] by (simp add: length_date_range forecast_horizon_def)
    have lc: "length (conf_int None) = 6"
      using arg_cong[OF cols(3), of length] len by simp
    have same: "\<forall>i < 6.
           (float_le (Lower_CI (recs ! i)) (Forecast (recs ! i)) \<and>
            float_le (Forecast (recs ! i)) (Upper_CI (recs ! i))) =
           (float_le (fst (conf_int None ! i)) (forecast_mean ! i) \<and>
            float_le (forecast_mean ! i) (snd (conf_int None ! i)))"
    proof (intro allI impI)
      fix i :: nat assume i: "i < 6"
      have f: "Forecast (recs ! i) = forecast_mean ! i"
        using arg_cong[OF cols(2), of "\<lambda>xs. xs ! i"] i len by simp
      have l: "Lower_CI (recs ! i) = fst (conf_int None ! i)"
        using arg_cong[OF cols(3), of "\<lambda>xs. xs ! i"] i len lc by simp
      have u: "Upper_CI (recs ! i) = snd (conf_int None ! i)"
        using arg_cong[OF cols(4), of "\<lambda>xs. xs ! i"] i len lc by simp
      show "(float_le (Lower_CI (recs ! i)) (Forecast (recs ! i)) \<and>
            float_le (Forecast (recs ! i)) (Upper_CI (recs ! i))) =
           (float_le (fst (conf_int None ! i)) (forecast_mean ! i) \<and>
            float_le (forecast_mean ! i) (snd (conf_int None ! i)))"
        by (simp only: f l u)
    qed
    show ?thesis
      apply (rule exI[of _ ts], rule exI[of _ results], rule exI[of _ forecast_mean],
             rule exI[of _ conf_int])
      apply (intro conjI)
            apply (rule 1(1))
           apply (rule 1(2))
          apply (rule 1(3))
         apply (rule cols(2))
        apply (rule cols(3))
       apply (rule cols(4))
      apply (rule same)
      done
  qed
qed

text \<open>
  On the sample the records carry the library's six rows, and the third record is
  ordered as the library's third row is.
\<close>

theorem records_carry_the_library_interval_witness:
  "forecast_gas sample_env sample_cleaned ''CO2_seasonal'' = Inr (sample_forecast ''CO2_seasonal'') \<and>
   map Forecast (sample_forecast ''CO2_seasonal'') =
     [Finite 0, Finite 1, Finite 2, Finite 3, Finite 4, Finite 5] \<and>
   map Lower_CI (sample_forecast ''CO2_seasonal'') =
     map fst [(Finite (- 1), Finite 1), (Finite 0, Finite 2), (Finite 1, Finite 3),
              (Finite 2, Finite 4), (Finite 3, Finite 5), (Finite 4, Finite 6)] \<and>
   (float_le (Lower_CI (sample_forecast ''CO2_seasonal'' ! 2))
             (Forecast (sample_forecast ''CO2_seasonal'' ! 2)) \<and>
    float_le (Forecast (sample_forecast ''CO2_seasonal'' ! 2))
             (Upper_CI (sample_forecast ''CO2_seasonal'' ! 2))) =
   (float_le (Finite 1) (Finite 2) \<and> float_le (Finite 2) (Finite 3))"
proof -
  have fg: "forecast_gas sample_env sample_cleaned ''CO2_seasonal'' =
              Inr (sample_forecast ''CO2_seasonal'')"
    by (rule sample_forecast_gas[OF sample_target_member(1)])
  note t = records_carry_the_library_interval
     [of sample_env sample_cleaned "''CO2_seasonal''" "sample_forecast ''CO2_seasonal''",
      THEN mp, OF fg]
  from t show ?thesis
  proof (elim exE conjE)
    fix ts results forecast_mean conf_int
    assume g: "get_forecast sample_env results forecast_horizon = Inr (forecast_mean, conf_int)"
      and m: "map Forecast (sample_forecast ''CO2_seasonal'') = forecast_mean"
      and l: "map Lower_CI (sample_forecast ''CO2_seasonal'') = map fst (conf_int None)"
      and same: "\<forall>i < 6.
           (float_le (Lower_CI (sample_forecast ''CO2_seasonal'' ! i))
                     (Forecast (sample_forecast ''CO2_seasonal'' ! i)) \<and>
            float_le (Forecast (sample_forecast ''CO2_seasonal'' ! i))
                     (Upper_CI (sample_forecast ''CO2_seasonal'' ! i))) =
           (float_le (fst (conf_int None ! i)) (forecast_mean ! i) \<and>
            float_le (forecast_mean ! i) (snd (conf_int None ! i)))"
    from g have
      mean: "forecast_mean = [Finite 0, Finite 1, Finite 2, Finite 3, Finite 4, Finite 5]" and
      ci: "conf_int = (\<lambda>alpha. [(Finite (- 1), Finite 1), (Finite 0, Finite 2),
             (Finite 1, Finite 3), (Finite 2, Finite 4), (Finite 3, Finite 5),
             (Finite 4, Finite 6)])"
      by (simp_all add: sample_env_fields sample_get_forecast_6)
    have two: "(2::nat) < 6" by simp
    note third = same[THEN spec, THEN mp, OF two]
    have row: "fst (conf_int None ! 2) = Finite 1" "forecast_mean ! 2 = Finite 2"
      "snd (conf_int None ! 2) = Finite 3"
      by (simp_all add: mean ci)
    show ?thesis
      apply (intro conjI)
         apply (rule fg)
        apply (rule m[unfolded mean])
       apply (rule l[unfolded ci])
      apply (rule third[unfolded row])
      done
  qed
qed

text \<open>
  Claim C8 as it is stated fails. With a library whose fits converge with a NaN score and
  whose forecast is NaN on every row, the search returns \<open>(None, None)\<close>, the absent
  orders are read as the default orders, and the run finishes and writes 24 records
  whose forecast and bounds are NaN: the lower bound of such a record is not \<open>\<le>\<close> its
  forecast.
\<close>

theorem nan_rows_are_written_counterexample:
  "optimize_sarima nan_env sample_series range_0_2 range_0_2 range_0_2
     range_0_2 range_0_2 range_0_2 s_period = (None, None) \<and>
   forecast_gas nan_env sample_cleaned ''CO2_seasonal'' = Inr (nan_forecast ''CO2_seasonal'') \<and>
   ending (run nan_env) = Finished \<and>
   csv_file (run nan_env) = Some (concat (map nan_forecast target_gases)) \<and>
   Lower_CI (nan_forecast ''CO2_seasonal'' ! 0) = NaN \<and>
   Forecast (nan_forecast ''CO2_seasonal'' ! 0) = NaN \<and>
   \<not> float_le (Lower_CI (nan_forecast ''CO2_seasonal'' ! 0))
               (Forecast (nan_forecast ''CO2_seasonal'' ! 0))"
  apply (intro conjI)
        apply (rule nan_search)
       apply (rule nan_forecast_gas[OF sample_target_member(1)])
      apply (rule nan_run(1))
     apply (rule nan_run(2))
    apply (simp add: nan_forecast_def)
   apply (simp add: nan_forecast_def)
  apply (simp add: nan_forecast_def)
  done

text \<open>
  Claim C9. When \<open>read_csv\<close> raises, the run prints the error and exits, and when the
  preparation of the frame raises, the run ends with that exception: in both cases
  neither file is written. The preparation raises on a frame without a \<open>Date\<close>
  column, on a date cell that does not match the format, and on a missing target column.
\<close>

theorem no_output_when_the_input_fails:
  "(read_csv env = Inl e \<longrightarrow>
      run env = \<lparr>ending = Exit_after_load_error e, csv_file = None, html_file = None\<rparr>) \<and>
   (read_csv env = Inr raw \<and> prepare (strptime env) (tie_rank env) raw = Inl e \<longrightarrow>
      run env = \<lparr>ending = Uncaught e, csv_file = None, html_file = None\<rparr>) \<and>
   (''Date'' \<notin> set (columns raw) \<longrightarrow> prepare sp tie raw = Inl (KeyError [''Date''])) \<and>
   (''Date'' \<in> set (columns raw) \<and> Some cell \<in> set (map fst (rows raw)) \<and> sp cell = None \<longrightarrow>
      (\<exists>bad. prepare sp tie raw = Inl (ValueError bad) \<and> sp bad = None)) \<and>
   (set_date_index sp raw = Inr indexed \<and> gas \<in> set target_gases \<and>
    gas \<notin> set (columns indexed) \<longrightarrow>
      (\<exists>missing. prepare sp tie raw = Inl (KeyError missing) \<and> gas \<in> set missing))"
  apply (intro conjI impI)
      apply (erule run_load_error)
     apply (erule conjE, erule (1) run_prepare_error)
    apply (erule prepare_no_date_column)
   apply (elim conjE, erule (2) prepare_unparsed_date)
  apply (elim conjE, erule (2) prepare_missing_column)
  done

text \<open>
  A run whose download fails exits after the message; a run whose first date cell does not
  parse ends with the \<open>ValueError\<close> of that cell. Neither writes a file.
\<close>

theorem no_output_when_the_input_fails_witness:
  "run (sample_env\<lparr>read_csv := Inl (LibraryError ''URLError'')\<rparr>) =
     \<lparr>ending = Exit_after_load_error (LibraryError ''URLError''),
      csv_file = None, html_file = None\<rparr> \<and>
   prepare (\<lambda>cell. None) (\<lambda>r. 0) sample_sheet = Inl (ValueError ''Dec-2024'') \<and>
   run (sample_env\<lparr>strptime := \<lambda>cell. None\<rparr>) =
     \<lparr>ending = Uncaught (ValueError ''Dec-2024''), csv_file = None, html_file = None\<rparr>"
proof -
  have p: "prepare (\<lambda>cell. None) (\<lambda>r. 0) sample_sheet = Inl (ValueError ''Dec-2024'')"
    by (simp add: prepare_def set_date_index_def sample_sheet_def)
  note a = no_output_when_the_input_fails
     [of "sample_env\<lparr>read_csv := Inl (LibraryError ''URLError'')\<rparr>" "LibraryError ''URLError''",
      THEN conjunct1, THEN mp]
  note b = no_output_when_the_input_fails
     [of "sample_env\<lparr>strptime := \<lambda>cell. None\<rparr>" "ValueError ''Dec-2024''" sample_sheet,
      THEN conjunct2, THEN conjunct1, THEN mp]
  show ?thesis
    apply (intro conjI)
      apply (rule a, simp)
     apply (rule p)
    apply (rule b, simp add: sample_env_fields p)
    done
qed







end
